theory Spec2Isabelle
  imports Complex_Main
begin

section \<open>Python values\<close>

text \<open>
  The records handled by \<^verbatim>\<open>scripts/transform_24_to_25.py\<close> come from \<^verbatim>\<open>json.load\<close>:
  they are \<^verbatim>\<open>None\<close>, booleans, unbounded integers, floats, strings, lists and dicts.
  \<^verbatim>\<open>scripts/verify_yaml.py\<close> reads with \<^verbatim>\<open>yaml.safe_load\<close> the documents the
  transformer dumped, which hold the same values; the other values a YAML document can
  hold (timestamps, binary data, sets) are not modelled.

  A float is a finite value, an infinity or a NaN (\<^verbatim>\<open>json.load\<close> accepts the
  literals \<^verbatim>\<open>NaN\<close>, \<^verbatim>\<open>Infinity\<close> and \<^verbatim>\<open>-Infinity\<close>); both zeros are
  \<open>FFinite 0\<close>. A string is a list of characters, each standing for one code point
  below 256. A dict is an association list in insertion order; \<^verbatim>\<open>json.load\<close> only
  builds string keys, \<^verbatim>\<open>dict(pairs)\<close> can build any hashable key.
\<close>

datatype pyfloat = FFinite rat | FPosInf | FNegInf | FNaN

datatype pyval =
    PNone
  | PBool bool
  | PInt int
  | PFloat pyfloat
  | PStr string
  | PList "pyval list"
  | PDict "(pyval \<times> pyval) list"

type_synonym pydict = "(pyval \<times> pyval) list"

text \<open>The exceptions the modelled code can raise.\<close>

datatype error = AttributeError | TypeError | ValueError | KeyError | OSError | YAMLError

text \<open>Truth value testing, as \<^verbatim>\<open>if v\<close>, \<^verbatim>\<open>v or w\<close> and \<^verbatim>\<open>bool(v)\<close> do it.\<close>

fun truthy :: "pyval \<Rightarrow> bool" where
  "truthy PNone = False"
| "truthy (PBool b) = b"
| "truthy (PInt i) = (i \<noteq> 0)"
| "truthy (PFloat f) = (f \<noteq> FFinite 0)"
| "truthy (PStr s) = (s \<noteq> [])"
| "truthy (PList xs) = (xs \<noteq> [])"
| "truthy (PDict d) = (d \<noteq> [])"

definition py_or :: "pyval \<Rightarrow> pyval \<Rightarrow> pyval" where
  "py_or a b = (if truthy a then a else b)"

definition py_bool :: "pyval \<Rightarrow> pyval" where
  "py_bool v = PBool (truthy v)"

text \<open>\<^verbatim>\<open>d.get(k)\<close> and \<^verbatim>\<open>d.get(k, default)\<close> for a string key \<open>k\<close> of a dict.\<close>

definition get :: "pydict \<Rightarrow> string \<Rightarrow> pyval" where
  "get d k = (case map_of d (PStr k) of None \<Rightarrow> PNone | Some v \<Rightarrow> v)"

definition get_default :: "pydict \<Rightarrow> string \<Rightarrow> pyval \<Rightarrow> pyval" where
  "get_default d k dflt = (case map_of d (PStr k) of None \<Rightarrow> dflt | Some v \<Rightarrow> v)"

text \<open>
  \<^verbatim>\<open>v.get(k)\<close> on a value that need not be a dict: only a dict has the method, every
  other value raises \<^verbatim>\<open>AttributeError\<close>.
\<close>

fun attr_get :: "pyval \<Rightarrow> string \<Rightarrow> error + pyval" where
  "attr_get (PDict d) k = Inr (get d k)"
| "attr_get v k = Inl AttributeError"

fun attr_get_default :: "pyval \<Rightarrow> string \<Rightarrow> pyval \<Rightarrow> error + pyval" where
  "attr_get_default (PDict d) k dflt = Inr (get_default d k dflt)"
| "attr_get_default v k dflt = Inl AttributeError"

text \<open>Hashable values: everything but lists and dicts.\<close>

fun hashable :: "pyval \<Rightarrow> bool" where
  "hashable (PList xs) = False"
| "hashable (PDict d) = False"
| "hashable v = True"

text \<open>
  Equality of two hashable values as dict keys: \<^verbatim>\<open>True == 1 == 1.0\<close>. A NaN is not
  equal to itself, but \<^verbatim>\<open>json.load\<close> returns one and the same NaN object for every
  \<^verbatim>\<open>NaN\<close> literal and a dict finds a key again by identity, so two NaN keys are one
  key.
\<close>

fun num_value :: "pyval \<Rightarrow> rat option" where
  "num_value (PBool b) = Some (if b then 1 else 0)"
| "num_value (PInt i) = Some (of_int i)"
| "num_value (PFloat (FFinite r)) = Some r"
| "num_value v = None"

fun key_eq :: "pyval \<Rightarrow> pyval \<Rightarrow> bool" where
  "key_eq PNone b = (b = PNone)"
| "key_eq (PStr s) b = (b = PStr s)"
| "key_eq (PFloat FPosInf) b = (b = PFloat FPosInf)"
| "key_eq (PFloat FNegInf) b = (b = PFloat FNegInf)"
| "key_eq (PFloat FNaN) b = (b = PFloat FNaN)"
| "key_eq a b = (num_value a \<noteq> None \<and> num_value a = num_value b)"

text \<open>\<^verbatim>\<open>d[k] = v\<close>: an equal key keeps its place and its key object, a new key goes last.\<close>

fun dict_set :: "pydict \<Rightarrow> pyval \<Rightarrow> pyval \<Rightarrow> pydict" where
  "dict_set [] k v = [(k, v)]"
| "dict_set ((k', v') # d) k v =
     (if key_eq k' k then (k', v) # d else (k', v') # dict_set d k v)"

text \<open>
  Iterating a value (\<^verbatim>\<open>for c in v\<close>): a list gives its elements, a string its
  one-character strings, a dict its keys; nothing else is iterable.
\<close>

fun py_iter :: "pyval \<Rightarrow> error + pyval list" where
  "py_iter (PList xs) = Inr xs"
| "py_iter (PStr s) = Inr (map (\<lambda>c. PStr [c]) s)"
| "py_iter (PDict d) = Inr (map fst d)"
| "py_iter v = Inl TypeError"

text \<open>
  \<^verbatim>\<open>dict(v)\<close>. A dict is copied. Any other iterable is read as a sequence of
  key/value pairs: each element must itself be iterable (\<^verbatim>\<open>TypeError\<close> otherwise),
  have exactly two items (\<^verbatim>\<open>ValueError\<close> otherwise) and a hashable first item
  (\<^verbatim>\<open>TypeError\<close> otherwise); the first failing element raises.
\<close>

fun dict_of_pairs :: "pydict \<Rightarrow> pyval list \<Rightarrow> error + pydict" where
  "dict_of_pairs d [] = Inr d"
| "dict_of_pairs d (e # es) =
     (case py_iter e of
        Inl err \<Rightarrow> Inl err
      | Inr [k, v] \<Rightarrow> (if hashable k then dict_of_pairs (dict_set d k v) es else Inl TypeError)
      | Inr items \<Rightarrow> Inl ValueError)"

fun py_dict :: "pyval \<Rightarrow> error + pydict" where
  "py_dict (PDict d) = Inr d"
| "py_dict v = (case py_iter v of Inl err \<Rightarrow> Inl err | Inr es \<Rightarrow> dict_of_pairs [] es)"

text \<open>\<^verbatim>\<open>d.pop(key, None)\<close> for a string key, the popped value dropped.\<close>

definition pop :: "string \<Rightarrow> pydict \<Rightarrow> pydict" where
  "pop key d = filter (\<lambda>kv. fst kv \<noteq> PStr key) d"

section \<open>Strings\<close>

text \<open>
  \<^verbatim>\<open>str.strip()\<close> removes the leading and trailing characters for which
  \<^verbatim>\<open>str.isspace\<close> holds; below code point 256 these are U+0009..U+000D,
  U+001C..U+001F, U+0020, U+0085 and U+00A0.
\<close>

definition whitespace :: "char list" where
  "whitespace =
     [CHR 0x09, CHR 0x0A, CHR 0x0B, CHR 0x0C, CHR 0x0D, CHR 0x1C, CHR 0x1D, CHR 0x1E,
      CHR 0x1F, CHR 0x20, CHR 0x85, CHR 0xA0]"

definition isspace :: "char \<Rightarrow> bool" where
  "isspace c = (c \<in> set whitespace)"

definition strip :: "string \<Rightarrow> string" where
  "strip s = rev (dropWhile isspace (rev (dropWhile isspace s)))"

section \<open>transform\_24\_to\_25.py\<close>

definition CREDTYPE_MAP :: "(string \<times> string) list" where
  "CREDTYPE_MAP =
     [(''Machine'', ''Machine''),
      (''Source Control'', ''Source Control''),
      (''Vault'', ''Vault''),
      (''Amazon Web Services'', ''Amazon Web Services''),
      (''OpenShift or Kubernetes API Bearer Token'', ''OpenShift or Kubernetes API Bearer Token''),
      (''OpenShift or Kubernetes API Certificate'', ''OpenShift or Kubernetes API Certificate'')]"

text \<open>
  \<^verbatim>\<open>CREDTYPE_MAP.get(k, dflt)\<close>: hashing an unhashable \<open>k\<close> raises
  \<^verbatim>\<open>TypeError\<close>; the table has string keys only, so any other key misses.
\<close>

definition CREDTYPE_MAP_get :: "pyval \<Rightarrow> pyval \<Rightarrow> error + pyval" where
  "CREDTYPE_MAP_get k dflt =
     (if \<not> hashable k then Inl TypeError
      else Inr (case k of
                  PStr s \<Rightarrow> (case map_of CREDTYPE_MAP s of Some t \<Rightarrow> PStr t | None \<Rightarrow> dflt)
                | _ \<Rightarrow> dflt))"

text \<open>\<^verbatim>\<open>_stripped\<close> (line 83) and \<^verbatim>\<open>_name\<close> (line 90).\<close>

fun priv_stripped :: "pyval \<Rightarrow> pyval" where
  "priv_stripped (PStr s) = PStr (strip s)"
| "priv_stripped v = v"

fun priv_name :: "pyval \<Rightarrow> pyval" where
  "priv_name (PDict d) = get d ''name''"
| "priv_name (PStr s) = PStr s"
| "priv_name v = PNone"

text \<open>
  The closing comprehension of six normalizers,
  \<^verbatim>\<open>{k: v for k, v in payload.items() if v not in (None, {}, [])}\<close>:
  \<^verbatim>\<open>in\<close> compares with \<^verbatim>\<open>==\<close>, and only \<^verbatim>\<open>None\<close>, the empty dict and the empty
  list are equal to a member of the tuple.
\<close>

definition prunable :: "pyval \<Rightarrow> bool" where
  "prunable v = (v = PNone \<or> v = PDict [] \<or> v = PList [])"

definition prune :: "pydict \<Rightarrow> pydict" where
  "prune payload = filter (\<lambda>kv. \<not> prunable (snd kv)) payload"

text \<open>\<^verbatim>\<open>_stripped(org) if org else None\<close>, the expression of every reference field.\<close>

definition stripped_if :: "pyval \<Rightarrow> pyval" where
  "stripped_if org = (if truthy org then priv_stripped org else PNone)"

definition normalize_org :: "pydict \<Rightarrow> pydict" where
  "normalize_org o' =
     [(PStr ''name'', priv_stripped (get o' ''name'')),
      (PStr ''state'', PStr ''present'')]"

text \<open>The keys popped from \<^verbatim>\<open>inputs\<close> (the tuple of line 128).\<close>

definition sensitive_keys :: "string list" where
  "sensitive_keys =
     [''password'', ''secret'', ''ssh_key_data'', ''ssh_key_unlock'', ''token'',
      ''client_secret'', ''become_password'']"

text \<open>Lines 121 and 122: the label before the table lookup.\<close>

definition credential_label :: "pydict \<Rightarrow> error + pyval" where
  "credential_label c =
     (let ct = py_or (get c ''credential_type'') (PDict []) in
      case attr_get ct ''name'' of
        Inl err \<Rightarrow> Inl err
      | Inr n \<Rightarrow> Inr (py_or n (get c ''kind'')))"

definition normalize_credential :: "pydict \<Rightarrow> error + pydict" where
  "normalize_credential c =
     (case credential_label c of
        Inl err \<Rightarrow> Inl err
      | Inr ct_name0 \<Rightarrow>
     (case CREDTYPE_MAP_get ct_name0 ct_name0 of
        Inl err \<Rightarrow> Inl err
      | Inr ct_name \<Rightarrow>
     (let org = py_or (priv_name (get c ''organization'')) (priv_name (get c ''organization_id'')) in
      case py_dict (py_or (get c ''inputs'') (PDict [])) of
        Inl err \<Rightarrow> Inl err
      | Inr inputs0 \<Rightarrow>
     (let inputs = fold pop sensitive_keys inputs0 in
      Inr (prune
        [(PStr ''name'', priv_stripped (get c ''name'')),
         (PStr ''description'', py_or (get c ''description'') (PStr '''')),
         (PStr ''organization'', stripped_if org),
         (PStr ''credential_type'', ct_name),
         (PStr ''inputs'', py_or (PDict inputs) (PDict [])),
         (PStr ''state'', PStr ''present'')])))))"

definition normalize_project :: "pydict \<Rightarrow> pydict" where
  "normalize_project p =
     (let scm_type = py_or (get p ''scm_type'')
                       (if truthy (get p ''scm_url'') then PStr ''git'' else PStr ''manual'');
          org = priv_name (get p ''organization'')
      in prune
        [(PStr ''name'', priv_stripped (get p ''name'')),
         (PStr ''description'', py_or (get p ''description'') (PStr '''')),
         (PStr ''organization'', stripped_if org),
         (PStr ''scm_type'', scm_type),
         (PStr ''scm_url'', get p ''scm_url''),
         (PStr ''scm_branch'', py_or (get p ''scm_branch'') (PStr ''main'')),
         (PStr ''scm_update_on_launch'', py_bool (get_default p ''scm_update_on_launch'' (PBool True))),
         (PStr ''allow_override'', py_bool (get_default p ''allow_override'' (PBool True))),
         (PStr ''state'', PStr ''present'')])"

definition normalize_inventory :: "pydict \<Rightarrow> pydict" where
  "normalize_inventory inv' =
     (let org = priv_name (get inv' ''organization'');
          kind = py_or (get inv' ''kind'') (PStr ''normal'')
      in prune
        [(PStr ''name'', priv_stripped (get inv' ''name'')),
         (PStr ''description'', py_or (get inv' ''description'') (PStr '''')),
         (PStr ''organization'', stripped_if org),
         (PStr ''variables'', py_or (get inv' ''variables'') (PDict [])),
         (PStr ''kind'', kind),
         (PStr ''state'', PStr ''present'')])"

text \<open>
  Line 193, \<^verbatim>\<open>[_stripped(_name(c)) for c in (... or []) if _name(c)]\<close>, over the
  elements the iteration gives.
\<close>

definition resolve_credentials :: "pyval list \<Rightarrow> pyval list" where
  "resolve_credentials cs =
     map (\<lambda>c. priv_stripped (priv_name c)) (filter (\<lambda>c. truthy (priv_name c)) cs)"

definition normalize_job_template :: "pydict \<Rightarrow> error + pydict" where
  "normalize_job_template t =
     (let org = priv_name (get t ''organization'');
          proj = priv_name (get t ''project'');
          inv' = priv_name (get t ''inventory'');
          ee = priv_name (get t ''execution_environment'')
      in case py_iter (py_or (get t ''credentials'') (PList [])) of
        Inl err \<Rightarrow> Inl err
      | Inr cs \<Rightarrow>
     (let creds = resolve_credentials cs in
      Inr (prune
        [(PStr ''name'', priv_stripped (get t ''name'')),
         (PStr ''description'', py_or (get t ''description'') (PStr '''')),
         (PStr ''organization'', stripped_if org),
         (PStr ''project'', stripped_if proj),
         (PStr ''inventory'', stripped_if inv'),
         (PStr ''execution_environment'', stripped_if ee),
         (PStr ''job_type'', py_or (get t ''job_type'') (PStr ''run'')),
         (PStr ''playbook'', get t ''playbook''),
         (PStr ''credentials'', PList creds),
         (PStr ''survey_enabled'', py_bool (get t ''survey_enabled'')),
         (PStr ''limit'', py_or (get t ''limit'') (PStr '''')),
         (PStr ''verbosity'', py_or (get t ''verbosity'') (PInt 0)),
         (PStr ''state'', PStr ''present'')])))"

definition normalize_workflow_template :: "pydict \<Rightarrow> pydict" where
  "normalize_workflow_template w =
     (let org = priv_name (get w ''organization'')
      in prune
        [(PStr ''name'', priv_stripped (get w ''name'')),
         (PStr ''description'', py_or (get w ''description'') (PStr '''')),
         (PStr ''organization'', stripped_if org),
         (PStr ''state'', PStr ''present'')])"

definition normalize_execution_environment :: "pydict \<Rightarrow> pydict" where
  "normalize_execution_environment ee =
     (let org = priv_name (get ee ''organization'')
      in prune
        [(PStr ''name'', priv_stripped (get ee ''name'')),
         (PStr ''image'', priv_stripped (get ee ''image'')),
         (PStr ''organization'', stripped_if org),
         (PStr ''pull'', get_default ee ''pull'' (PStr ''missing'')),
         (PStr ''state'', PStr ''present'')])"

text \<open>
  The seven record kinds and the normalizer \<^verbatim>\<open>main\<close> applies to each
  (lines 265 to 271).
\<close>

datatype kind =
    Organization | Credential | Project | Inventory
  | JobTemplate | WorkflowTemplate | ExecutionEnvironment

fun normalizer :: "kind \<Rightarrow> pydict \<Rightarrow> error + pydict" where
  "normalizer Organization r = Inr (normalize_org r)"
| "normalizer Credential r = normalize_credential r"
| "normalizer Project r = Inr (normalize_project r)"
| "normalizer Inventory r = Inr (normalize_inventory r)"
| "normalizer JobTemplate r = normalize_job_template r"
| "normalizer WorkflowTemplate r = Inr (normalize_workflow_template r)"
| "normalizer ExecutionEnvironment r = Inr (normalize_execution_environment r)"

section \<open>verify\_yaml.py\<close>

definition EXPECTED_FILES :: "(string \<times> string) list" where
  "EXPECTED_FILES =
     [(''controller_organizations.yml'', ''controller_organizations''),
      (''controller_credentials.yml'', ''controller_credentials''),
      (''controller_projects.yml'', ''controller_projects''),
      (''controller_inventories.yml'', ''controller_inventories''),
      (''controller_templates.yml'', ''controller_templates''),
      (''controller_workflows.yml'', ''controller_workflows''),
      (''controller_execution_environments.yml'', ''controller_execution_environments'')]"

definition REQUIRED_FIELDS_PER_LIST_ITEM :: "(string \<times> string list) list" where
  "REQUIRED_FIELDS_PER_LIST_ITEM =
     [(''controller_organizations'', [''name'']),
      (''controller_credentials'', [''name'', ''credential_type'']),
      (''controller_projects'', [''name'']),
      (''controller_inventories'', [''name'']),
      (''controller_templates'', [''name'', ''project'', ''job_type'']),
      (''controller_workflows'', [''name'']),
      (''controller_execution_environments'', [''name'', ''image''])]"

text \<open>
  The directory under \<^verbatim>\<open>--path\<close>: the files it holds by name. A file either fails to
  open or to parse (\<open>Broken\<close>: \<^verbatim>\<open>load_yaml\<close> raises) or parses to a value
  (\<open>Loaded\<close>, the result of \<^verbatim>\<open>yaml.safe_load\<close>). A name without an entry is a file
  that does not exist.
\<close>

datatype file_content = Broken | Loaded pyval

type_synonym directory = "(string \<times> file_content) list"

definition load_yaml :: "directory \<Rightarrow> string \<Rightarrow> error + pyval" where
  "load_yaml dir fname =
     (case map_of dir fname of
        None \<Rightarrow> Inl OSError
      | Some Broken \<Rightarrow> Inl YAMLError
      | Some (Loaded v) \<Rightarrow> Inr (py_or v (PDict [])))"

text \<open>
  \<^verbatim>\<open>key in data\<close> and \<^verbatim>\<open>data[key]\<close> for a string key and any value: membership is
  a key test on a dict, an element test on a list and a substring test on a string;
  subscripting with a string only works on a dict.
\<close>

fun substring :: "string \<Rightarrow> string \<Rightarrow> bool" where
  "substring k [] = (k = [])"
| "substring k (c # s) = (take (length k) (c # s) = k \<or> substring k s)"

fun py_contains :: "pyval \<Rightarrow> string \<Rightarrow> error + bool" where
  "py_contains (PDict d) k = Inr (map_of d (PStr k) \<noteq> None)"
| "py_contains (PList xs) k = Inr (PStr k \<in> set xs)"
| "py_contains (PStr s) k = Inr (substring k s)"
| "py_contains v k = Inl TypeError"

fun py_getitem :: "pyval \<Rightarrow> string \<Rightarrow> error + pyval" where
  "py_getitem (PDict d) k = (case map_of d (PStr k) of None \<Rightarrow> Inl KeyError | Some v \<Rightarrow> Inr v)"
| "py_getitem v k = Inl TypeError"

fun isinstance_list :: "pyval \<Rightarrow> bool" where
  "isinstance_list (PList xs) = True"
| "isinstance_list v = False"

fun isinstance_str :: "pyval \<Rightarrow> bool" where
  "isinstance_str (PStr s) = True"
| "isinstance_str v = False"

text \<open>The messages, kept as data: what was found and where, not the printed text.\<close>

datatype top_message = NoMessage | MissingTopLevelKey string | MustBeAList string

datatype item_error =
    MustBeMapping string nat
  | MissingRequiredField string nat string
  | StateMustBeString string nat

datatype message =
    MissingExpectedFile string
  | FailedToParse string error
  | TopLevel string top_message
  | Item string item_error

definition validate_top_level :: "pyval \<Rightarrow> string \<Rightarrow> error + (bool \<times> top_message)" where
  "validate_top_level data expected_key =
     (case py_contains data expected_key of
        Inl err \<Rightarrow> Inl err
      | Inr present \<Rightarrow>
          if \<not> present then Inr (False, MissingTopLevelKey expected_key)
          else (case py_getitem data expected_key of
                  Inl err \<Rightarrow> Inl err
                | Inr v \<Rightarrow>
                    if \<not> isinstance_list v then Inr (False, MustBeAList expected_key)
                    else Inr (True, NoMessage)))"

text \<open>
  One turn of the loop of \<^verbatim>\<open>validate_list_items\<close> (lines 80 to 87):
  \<^verbatim>\<open>field not in obj or obj[field] in (None, "")\<close> for each required field, then the
  check of \<^verbatim>\<open>state\<close>.
\<close>

definition missing_or_empty :: "pydict \<Rightarrow> string \<Rightarrow> bool" where
  "missing_or_empty obj field =
     (case map_of obj (PStr field) of None \<Rightarrow> True | Some v \<Rightarrow> v = PNone \<or> v = PStr [])"

fun validate_item :: "string \<Rightarrow> string list \<Rightarrow> nat \<Rightarrow> pyval \<Rightarrow> item_error list" where
  "validate_item kind required idx (PDict obj) =
     map (MissingRequiredField kind idx) (filter (missing_or_empty obj) required) @
     (case map_of obj (PStr ''state'') of
        None \<Rightarrow> []
      | Some v \<Rightarrow> if \<not> isinstance_str v then [StateMustBeString kind idx] else [])"
| "validate_item kind required idx v = [MustBeMapping kind idx]"

definition validate_list_items :: "string \<Rightarrow> pyval list \<Rightarrow> item_error list" where
  "validate_list_items kind items =
     (let required = (case map_of REQUIRED_FIELDS_PER_LIST_ITEM kind of
                        None \<Rightarrow> [''name''] | Some fields \<Rightarrow> fields)
      in concat (map (\<lambda>(idx, obj). validate_item kind required idx obj) (enumerate 0 items)))"

text \<open>
  The loop of \<^verbatim>\<open>main\<close> over \<^verbatim>\<open>EXPECTED_FILES\<close> (lines 106 to 125), with the two
  lists it appends to. Only \<^verbatim>\<open>load_yaml\<close> runs under \<^verbatim>\<open>try\<close>: an exception of
  \<^verbatim>\<open>validate_top_level\<close> or of the statements after it leaves \<^verbatim>\<open>main\<close>.
\<close>

fun check_files ::
  "directory \<Rightarrow> (string \<times> string) list \<Rightarrow> message list \<Rightarrow> message list \<Rightarrow>
   error + (message list \<times> message list)" where
  "check_files dir [] warnings errors = Inr (warnings, errors)"
| "check_files dir ((fname, topkey) # rest) warnings errors =
     (if map_of dir fname = None
      then check_files dir rest (warnings @ [MissingExpectedFile fname]) errors
      else case load_yaml dir fname of
        Inl e \<Rightarrow> check_files dir rest warnings (errors @ [FailedToParse fname e])
      | Inr data \<Rightarrow>
     (case validate_top_level data topkey of
        Inl err \<Rightarrow> Inl err
      | Inr (ok, msg) \<Rightarrow>
          if \<not> ok then check_files dir rest warnings (errors @ [TopLevel fname msg])
          else (case attr_get_default data topkey (PList []) of
                  Inl err \<Rightarrow> Inl err
                | Inr found \<Rightarrow>
               (case py_iter found of
                  Inl err \<Rightarrow> Inl err
                | Inr items \<Rightarrow>
                    check_files dir rest warnings
                      (errors @ map (Item fname) (validate_list_items topkey items))))))"

text \<open>
  \<^verbatim>\<open>main\<close> (lines 92 to 140) from the two parsed arguments: whether \<^verbatim>\<open>--path\<close>
  exists, \<^verbatim>\<open>--strict\<close>, and the directory. \<open>Inr\<close> is the returned exit code,
  \<open>Inl\<close> an exception that \<^verbatim>\<open>main\<close> does not catch.
\<close>

definition main :: "bool \<Rightarrow> bool \<Rightarrow> directory \<Rightarrow> error + int" where
  "main base_exists strict dir =
     (if \<not> base_exists then Inr 2
      else case check_files dir EXPECTED_FILES [] [] of
        Inl err \<Rightarrow> Inl err
      | Inr (warnings, errors) \<Rightarrow>
          if errors \<noteq> [] then Inr 2
          else if warnings \<noteq> [] then Inr (if strict then 1 else 0)
          else Inr 0)"

section \<open>Notions the claims are stated with\<close>

text \<open>A string with no whitespace at either end.\<close>

definition is_stripped :: "string \<Rightarrow> bool" where
  "is_stripped s = (s = [] \<or> (\<not> isspace (hd s) \<and> \<not> isspace (last s)))"

text \<open>
  The fields whose payload expression goes through \<^verbatim>\<open>_stripped\<close>, per kind; for a job
  template the entries of \<^verbatim>\<open>credentials\<close> do too.
\<close>

fun stripped_fields :: "kind \<Rightarrow> string list" where
  "stripped_fields Organization = [''name'']"
| "stripped_fields Credential = [''name'', ''organization'']"
| "stripped_fields Project = [''name'', ''organization'']"
| "stripped_fields Inventory = [''name'', ''organization'']"
| "stripped_fields JobTemplate =
     [''name'', ''organization'', ''project'', ''inventory'', ''execution_environment'']"
| "stripped_fields WorkflowTemplate = [''name'', ''organization'']"
| "stripped_fields ExecutionEnvironment = [''name'', ''image'', ''organization'']"

text \<open>Of these, the fields written as \<^verbatim>\<open>_stripped(x.get(field))\<close>.\<close>

fun direct_fields :: "kind \<Rightarrow> string list" where
  "direct_fields ExecutionEnvironment = [''name'', ''image'']"
| "direct_fields k = [''name'']"

text \<open>The fields resolved with \<^verbatim>\<open>_name\<close>, per kind.\<close>

fun reference_fields :: "kind \<Rightarrow> string list" where
  "reference_fields Organization = []"
| "reference_fields JobTemplate =
     [''organization'', ''project'', ''inventory'', ''execution_environment'']"
| "reference_fields k = [''organization'']"

fun nonempty_str :: "pyval \<Rightarrow> bool" where
  "nonempty_str (PStr s) = (s \<noteq> [])"
| "nonempty_str v = False"

text \<open>
  The canonical records on which a second normalization changes nothing: every
  reference field that is present holds a non-empty string, so does every entry of
  \<^verbatim>\<open>credentials\<close>, a credential has no \<^verbatim>\<open>credential_type\<close> and an execution
  environment has its \<^verbatim>\<open>pull\<close>.
\<close>

definition absent_or_name :: "pydict \<Rightarrow> string \<Rightarrow> bool" where
  "absent_or_name r f = (case map_of r (PStr f) of None \<Rightarrow> True | Some v \<Rightarrow> nonempty_str v)"

definition settled :: "kind \<Rightarrow> pydict \<Rightarrow> bool" where
  "settled k r =
     (list_all (absent_or_name r) (reference_fields k) \<and>
      (case map_of r (PStr ''credentials'') of
         Some (PList cs) \<Rightarrow> list_all nonempty_str cs
       | _ \<Rightarrow> True) \<and>
      (if k = Credential then map_of r (PStr ''credential_type'') = None else True) \<and>
      (if k = ExecutionEnvironment then map_of r (PStr ''pull'') \<noteq> None else True))"

text \<open>
  The \<^verbatim>\<open>credentials\<close> list in the words of the specification: the name of each entry
  resolved, only the non-null results kept, in order.
\<close>

definition spec_credentials :: "pyval list \<Rightarrow> pyval list" where
  "spec_credentials cs = filter (\<lambda>n. n \<noteq> PNone) (map priv_name cs)"

text \<open>
  What a lookup reads from a pruned payload, for a field the payload holds with value
  \<open>v\<close>: \<open>v\<close> itself, or \<^verbatim>\<open>None\<close> when pruning dropped the field.
\<close>

definition sparse :: "pyval \<Rightarrow> pyval" where
  "sparse v = (if prunable v then PNone else v)"

section \<open>Evaluation and the pruning step\<close>

lemmas eval_defs =
  normalize_credential_def credential_label_def CREDTYPE_MAP_get_def CREDTYPE_MAP_def
  normalize_org_def normalize_project_def normalize_inventory_def normalize_job_template_def
  normalize_workflow_template_def normalize_execution_environment_def resolve_credentials_def
  get_def get_default_def py_or_def py_bool_def prune_def prunable_def pop_def sensitive_keys_def
  stripped_if_def strip_def isspace_def whitespace_def Let_def

lemma map_of_prune:
  "distinct (map fst p) \<Longrightarrow>
   map_of (prune p) k =
     (case map_of p k of None \<Rightarrow> None | Some v \<Rightarrow> if prunable v then None else Some v)"
proof (induction p)
  case Nil
  then show ?case by (simp add: prune_def)
next
  case (Cons kv p)
  have absent: "map_of p (fst kv) = None"
    using Cons.prems by (simp add: map_of_eq_None_iff)
  show ?case
    using Cons absent by (cases kv) (auto simp: prune_def split: option.splits)
qed

lemma prune_sparse: "(k, v) \<in> set (prune p) \<Longrightarrow> v \<noteq> PNone \<and> v \<noteq> PDict [] \<and> v \<noteq> PList []"
  by (auto simp: prune_def prunable_def)

lemma pop_absent: "map_of (pop key d) (PStr key) = None"
  by (induction d) (auto simp: pop_def)

lemma pop_keeps_absent: "map_of d k = None \<Longrightarrow> map_of (pop key d) k = None"
  by (induction d) (auto simp: pop_def split: if_splits)

lemma fold_pop_keeps_absent: "map_of d k = None \<Longrightarrow> map_of (fold pop keys d) k = None"
  by (induction keys arbitrary: d) (simp_all add: pop_keeps_absent)

lemma fold_pop_absent: "key \<in> set keys \<Longrightarrow> map_of (fold pop keys d) (PStr key) = None"
proof (induction keys arbitrary: d)
  case Nil
  then show ?case by simp
next
  case (Cons a keys)
  show ?case
  proof (cases "key = a")
    case True
    then show ?thesis by (simp add: fold_pop_keeps_absent pop_absent)
  next
    case False
    then show ?thesis using Cons by simp
  qed
qed

text \<open>What a successful \<^verbatim>\<open>normalize_credential\<close> returns, with its intermediate values.\<close>

lemma normalize_credential_Inr:
  assumes "normalize_credential c = Inr r"
  obtains l inputs0 where
    "credential_label c = Inr l"
    "CREDTYPE_MAP_get l l = Inr l"
    "py_dict (py_or (get c ''inputs'') (PDict [])) = Inr inputs0"
    "r = prune
        [(PStr ''name'', priv_stripped (get c ''name'')),
         (PStr ''description'', py_or (get c ''description'') (PStr '''')),
         (PStr ''organization'',
            stripped_if (py_or (priv_name (get c ''organization''))
                               (priv_name (get c ''organization_id'')))),
         (PStr ''credential_type'', l),
         (PStr ''inputs'', PDict (fold pop sensitive_keys inputs0)),
         (PStr ''state'', PStr ''present'')]"
proof -
  have table: "map_of CREDTYPE_MAP s = Some t \<Longrightarrow> t = s" for s t
    by (simp add: CREDTYPE_MAP_def split: if_splits)
  have same: "CREDTYPE_MAP_get l l = Inr x \<Longrightarrow> x = l" for l x
    by (cases l) (auto simp: CREDTYPE_MAP_get_def dest: table split: option.splits)
  from assms obtain l x inputs0 where
    l: "credential_label c = Inr l" and x: "CREDTYPE_MAP_get l l = Inr x" and
    i: "py_dict (py_or (get c ''inputs'') (PDict [])) = Inr inputs0" and
    r: "r = prune
        [(PStr ''name'', priv_stripped (get c ''name'')),
         (PStr ''description'', py_or (get c ''description'') (PStr '''')),
         (PStr ''organization'',
            stripped_if (py_or (priv_name (get c ''organization''))
                               (priv_name (get c ''organization_id'')))),
         (PStr ''credential_type'', x),
         (PStr ''inputs'', py_or (PDict (fold pop sensitive_keys inputs0)) (PDict [])),
         (PStr ''state'', PStr ''present'')]"
    by (auto simp: normalize_credential_def Let_def split: sum.splits)
  have "py_or (PDict (fold pop sensitive_keys inputs0)) (PDict []) =
        PDict (fold pop sensitive_keys inputs0)"
    by (simp add: py_or_def)
  with l x i r same [OF x] that show thesis by simp
qed

section \<open>The claims on the credential normalizer\<close>

text \<open>
  Claim C1. Whenever \<^verbatim>\<open>normalize_credential\<close> returns a record, the record has no
  \<^verbatim>\<open>inputs\<close> field or its \<^verbatim>\<open>inputs\<close> is a mapping, and that mapping has none of the
  keys password, secret, ssh\_key\_data, ssh\_key\_unlock, token, client\_secret,
  become\_password, whatever the raw record's inputs held.
\<close>

theorem credential_inputs_without_sensitive_keys:
  assumes "normalize_credential c = Inr r"
  shows "case map_of r (PStr ''inputs'') of
           None \<Rightarrow> True
         | Some v \<Rightarrow> (\<exists>d. v = PDict d \<and>
             (\<forall>k \<in> {''password'', ''secret'', ''ssh_key_data'', ''ssh_key_unlock'', ''token'',
                    ''client_secret'', ''become_password''}. map_of d (PStr k) = None))"
proof -
  from assms obtain l inputs0 where
    r: "r = prune
        [(PStr ''name'', priv_stripped (get c ''name'')),
         (PStr ''description'', py_or (get c ''description'') (PStr '''')),
         (PStr ''organization'',
            stripped_if (py_or (priv_name (get c ''organization''))
                               (priv_name (get c ''organization_id'')))),
         (PStr ''credential_type'', l),
         (PStr ''inputs'', PDict (fold pop sensitive_keys inputs0)),
         (PStr ''state'', PStr ''present'')]"
    by (rule normalize_credential_Inr)
  have keys: "\<forall>k \<in> set sensitive_keys. map_of (fold pop sensitive_keys inputs0) (PStr k) = None"
    by (simp add: fold_pop_absent)
  have "map_of r (PStr ''inputs'') =
        (if prunable (PDict (fold pop sensitive_keys inputs0)) then None
         else Some (PDict (fold pop sensitive_keys inputs0)))"
    unfolding r by (subst map_of_prune) simp_all
  then show ?thesis
    using keys by (simp add: sensitive_keys_def)
qed

theorem credential_inputs_without_sensitive_keys_witness:
  "normalize_credential
     [(PStr ''name'', PStr '' c ''),
      (PStr ''credential_type'', PDict [(PStr ''name'', PStr ''Machine'')]),
      (PStr ''inputs'', PDict [(PStr ''username'', PStr ''u''), (PStr ''password'', PStr ''x'')])]
   = Inr [(PStr ''name'', PStr ''c''), (PStr ''description'', PStr ''''),
      (PStr ''credential_type'', PStr ''Machine''),
      (PStr ''inputs'', PDict [(PStr ''username'', PStr ''u'')]),
      (PStr ''state'', PStr ''present'')]
   \<and> (case map_of [(PStr ''name'', PStr ''c''), (PStr ''description'', PStr ''''),
      (PStr ''credential_type'', PStr ''Machine''),
      (PStr ''inputs'', PDict [(PStr ''username'', PStr ''u'')]),
      (PStr ''state'', PStr ''present'')] (PStr ''inputs'') of
           None \<Rightarrow> True
         | Some v \<Rightarrow> (\<exists>d. v = PDict d \<and>
             (\<forall>k \<in> {''password'', ''secret'', ''ssh_key_data'', ''ssh_key_unlock'', ''token'',
                    ''client_secret'', ''become_password''}. map_of d (PStr k) = None)))"
proof -
  have h: "normalize_credential
     [(PStr ''name'', PStr '' c ''),
      (PStr ''credential_type'', PDict [(PStr ''name'', PStr ''Machine'')]),
      (PStr ''inputs'', PDict [(PStr ''username'', PStr ''u''), (PStr ''password'', PStr ''x'')])]
   = Inr [(PStr ''name'', PStr ''c''), (PStr ''description'', PStr ''''),
      (PStr ''credential_type'', PStr ''Machine''),
      (PStr ''inputs'', PDict [(PStr ''username'', PStr ''u'')]),
      (PStr ''state'', PStr ''present'')]"
    by (simp add: eval_defs)
  from h credential_inputs_without_sensitive_keys [OF h] show ?thesis
    by (rule conjI)
qed

text \<open>
  Claim C9. Every entry of \<^verbatim>\<open>CREDTYPE_MAP\<close> maps its key to itself, so the lookup
  returns every hashable label it is given, in the table or not. Hence, whenever
  \<^verbatim>\<open>normalize_credential\<close> returns a record for a raw credential: the raw
  \<^verbatim>\<open>credential_type\<close> is falsy or a mapping; when it is a mapping with a truthy
  \<^verbatim>\<open>name\<close>, the record's \<^verbatim>\<open>credential_type\<close> is that name; otherwise it is the raw
  \<^verbatim>\<open>kind\<close>, and the field is left out when there is no \<^verbatim>\<open>kind\<close>.
\<close>

theorem credential_type_is_the_label:
  assumes "normalize_credential c = Inr r"
  shows "(\<forall>(k, v) \<in> set CREDTYPE_MAP. v = k) \<and>
         (\<forall>l. hashable l \<longrightarrow> CREDTYPE_MAP_get l l = Inr l) \<and>
         (\<not> truthy (get c ''credential_type'') \<or> (\<exists>d. get c ''credential_type'' = PDict d)) \<and>
         (\<forall>d. get c ''credential_type'' = PDict d \<and> truthy (get d ''name'') \<longrightarrow>
              map_of r (PStr ''credential_type'') = Some (get d ''name'')) \<and>
         (\<not> truthy (get c ''credential_type'') \<or>
          (\<exists>d. get c ''credential_type'' = PDict d \<and> \<not> truthy (get d ''name'')) \<longrightarrow>
              map_of r (PStr ''credential_type'') =
                (if get c ''kind'' = PNone then None else Some (get c ''kind'')))"
proof -
  from assms obtain l inputs0 where
    l: "credential_label c = Inr l" and same: "CREDTYPE_MAP_get l l = Inr l" and
    r: "r = prune
        [(PStr ''name'', priv_stripped (get c ''name'')),
         (PStr ''description'', py_or (get c ''description'') (PStr '''')),
         (PStr ''organization'',
            stripped_if (py_or (priv_name (get c ''organization''))
                               (priv_name (get c ''organization_id'')))),
         (PStr ''credential_type'', l),
         (PStr ''inputs'', PDict (fold pop sensitive_keys inputs0)),
         (PStr ''state'', PStr ''present'')]"
    by (rule normalize_credential_Inr)
  have "hashable l"
    using same by (simp add: CREDTYPE_MAP_get_def split: if_splits)
  then have p: "prunable l \<longleftrightarrow> l = PNone"
    by (cases l) (simp_all add: prunable_def)
  have m: "map_of r (PStr ''credential_type'') = (if l = PNone then None else Some l)"
    unfolding r by (subst map_of_prune) (simp_all add: p)
  have table: "\<forall>(k, v) \<in> set CREDTYPE_MAP. v = k"
    by (simp add: CREDTYPE_MAP_def)
  have entry: "map_of CREDTYPE_MAP s = Some t \<Longrightarrow> t = s" for s t
    by (simp add: CREDTYPE_MAP_def split: if_splits)
  have lookup: "CREDTYPE_MAP_get x x = Inr x" if "hashable x" for x
    using that by (cases x) (auto simp: CREDTYPE_MAP_get_def dest: entry split: option.splits)
  have shape: "\<not> truthy (get c ''credential_type'') \<or> (\<exists>d. get c ''credential_type'' = PDict d)"
    using l by (cases "get c ''credential_type''")
      (auto simp: credential_label_def py_or_def split: if_splits)
  have named: "l = get d ''name''"
    if "get c ''credential_type'' = PDict d" and "truthy (get d ''name'')" for d
    using l that by (cases d) (auto simp: credential_label_def py_or_def)
  have fallback: "l = get c ''kind''"
    if "\<not> truthy (get c ''credential_type'') \<or>
        (\<exists>d. get c ''credential_type'' = PDict d \<and> \<not> truthy (get d ''name''))"
    using l that by (auto simp: credential_label_def py_or_def get_def split: if_splits)
  have a: "map_of r (PStr ''credential_type'') = Some (get d ''name'')"
    if "get c ''credential_type'' = PDict d \<and> truthy (get d ''name'')" for d
  proof -
    from that have "l = get d ''name''" by (simp add: named)
    moreover from that have "get d ''name'' \<noteq> PNone" by auto
    ultimately show ?thesis by (simp add: m)
  qed
  have b: "map_of r (PStr ''credential_type'') =
        (if get c ''kind'' = PNone then None else Some (get c ''kind''))"
    if "\<not> truthy (get c ''credential_type'') \<or>
        (\<exists>d. get c ''credential_type'' = PDict d \<and> \<not> truthy (get d ''name''))"
    using fallback [OF that] by (simp add: m)
  from table lookup shape a b show ?thesis
    by blast
qed

theorem credential_type_is_the_label_witness:
  "normalize_credential
     [(PStr ''name'', PStr ''c''),
      (PStr ''credential_type'', PDict [(PStr ''id'', PInt 3), (PStr ''name'', PStr ''Custom Vault'')]),
      (PStr ''kind'', PStr ''vault'')]
   = Inr [(PStr ''name'', PStr ''c''), (PStr ''description'', PStr ''''),
      (PStr ''credential_type'', PStr ''Custom Vault''), (PStr ''state'', PStr ''present'')]
   \<and> map_of CREDTYPE_MAP ''Custom Vault'' = None
   \<and> map_of [(PStr ''name'', PStr ''c''), (PStr ''description'', PStr ''''),
      (PStr ''credential_type'', PStr ''Custom Vault''), (PStr ''state'', PStr ''present'')]
       (PStr ''credential_type'') = Some (PStr ''Custom Vault'')
   \<and> normalize_credential
     [(PStr ''name'', PStr ''k''), (PStr ''credential_type'', PNone), (PStr ''kind'', PStr ''ssh'')]
   = Inr [(PStr ''name'', PStr ''k''), (PStr ''description'', PStr ''''),
      (PStr ''credential_type'', PStr ''ssh''), (PStr ''state'', PStr ''present'')]
   \<and> map_of [(PStr ''name'', PStr ''k''), (PStr ''description'', PStr ''''),
      (PStr ''credential_type'', PStr ''ssh''), (PStr ''state'', PStr ''present'')]
       (PStr ''credential_type'') = Some (PStr ''ssh'')
   \<and> normalize_credential
     [(PStr ''name'', PStr ''m''),
      (PStr ''credential_type'', PDict [(PStr ''name'', PStr ''Machine'')]),
      (PStr ''kind'', PStr ''ssh'')]
   = Inr [(PStr ''name'', PStr ''m''), (PStr ''description'', PStr ''''),
      (PStr ''credential_type'', PStr ''Machine''), (PStr ''state'', PStr ''present'')]
   \<and> map_of CREDTYPE_MAP ''Machine'' = Some ''Machine''
   \<and> map_of [(PStr ''name'', PStr ''m''), (PStr ''description'', PStr ''''),
      (PStr ''credential_type'', PStr ''Machine''), (PStr ''state'', PStr ''present'')]
       (PStr ''credential_type'') = Some (PStr ''Machine'')"
proof -
  have h3: "normalize_credential
     [(PStr ''name'', PStr ''m''),
      (PStr ''credential_type'', PDict [(PStr ''name'', PStr ''Machine'')]),
      (PStr ''kind'', PStr ''ssh'')]
   = Inr [(PStr ''name'', PStr ''m''), (PStr ''description'', PStr ''''),
      (PStr ''credential_type'', PStr ''Machine''), (PStr ''state'', PStr ''present'')]"
    by (simp add: eval_defs)
  have t3: "map_of CREDTYPE_MAP ''Machine'' = Some ''Machine''"
    by (simp add: CREDTYPE_MAP_def)
  have g3: "get [(PStr ''name'', PStr ''m''),
      (PStr ''credential_type'', PDict [(PStr ''name'', PStr ''Machine'')]),
      (PStr ''kind'', PStr ''ssh'')] ''credential_type''
     = PDict [(PStr ''name'', PStr ''Machine'')]
     \<and> truthy (get [(PStr ''name'', PStr ''Machine'')] ''name'')"
    by (simp add: get_def)
  have n3: "get [(PStr ''name'', PStr ''Machine'')] ''name'' = PStr ''Machine''"
    by (simp add: get_def)
  from credential_type_is_the_label [OF h3] g3
  have "map_of [(PStr ''name'', PStr ''m''), (PStr ''description'', PStr ''''),
      (PStr ''credential_type'', PStr ''Machine''), (PStr ''state'', PStr ''present'')]
       (PStr ''credential_type'')
      = Some (get [(PStr ''name'', PStr ''Machine'')] ''name'')"
    by blast
  then have c3: "map_of [(PStr ''name'', PStr ''m''), (PStr ''description'', PStr ''''),
      (PStr ''credential_type'', PStr ''Machine''), (PStr ''state'', PStr ''present'')]
       (PStr ''credential_type'') = Some (PStr ''Machine'')"
    by (simp only: n3)
  have h1: "normalize_credential
     [(PStr ''name'', PStr ''c''),
      (PStr ''credential_type'', PDict [(PStr ''id'', PInt 3), (PStr ''name'', PStr ''Custom Vault'')]),
      (PStr ''kind'', PStr ''vault'')]
   = Inr [(PStr ''name'', PStr ''c''), (PStr ''description'', PStr ''''),
      (PStr ''credential_type'', PStr ''Custom Vault''), (PStr ''state'', PStr ''present'')]"
    by (simp add: eval_defs)
  have h2: "normalize_credential
     [(PStr ''name'', PStr ''k''), (PStr ''credential_type'', PNone), (PStr ''kind'', PStr ''ssh'')]
   = Inr [(PStr ''name'', PStr ''k''), (PStr ''description'', PStr ''''),
      (PStr ''credential_type'', PStr ''ssh''), (PStr ''state'', PStr ''present'')]"
    by (simp add: eval_defs)
  have t: "map_of CREDTYPE_MAP ''Custom Vault'' = None"
    by (simp add: CREDTYPE_MAP_def)
  have g1: "get [(PStr ''name'', PStr ''c''),
      (PStr ''credential_type'', PDict [(PStr ''id'', PInt 3), (PStr ''name'', PStr ''Custom Vault'')]),
      (PStr ''kind'', PStr ''vault'')] ''credential_type''
     = PDict [(PStr ''id'', PInt 3), (PStr ''name'', PStr ''Custom Vault'')]
     \<and> truthy (get [(PStr ''id'', PInt 3), (PStr ''name'', PStr ''Custom Vault'')] ''name'')"
    by (simp add: get_def)
  have n1: "get [(PStr ''id'', PInt 3), (PStr ''name'', PStr ''Custom Vault'')] ''name''
     = PStr ''Custom Vault''"
    by (simp add: get_def)
  have g2: "\<not> truthy (get [(PStr ''name'', PStr ''k''), (PStr ''credential_type'', PNone),
      (PStr ''kind'', PStr ''ssh'')] ''credential_type'')"
    by (simp add: get_def)
  have k2: "get [(PStr ''name'', PStr ''k''), (PStr ''credential_type'', PNone),
      (PStr ''kind'', PStr ''ssh'')] ''kind'' = PStr ''ssh''"
    by (simp add: get_def)
  from credential_type_is_the_label [OF h1] g1
  have "map_of [(PStr ''name'', PStr ''c''), (PStr ''description'', PStr ''''),
      (PStr ''credential_type'', PStr ''Custom Vault''), (PStr ''state'', PStr ''present'')]
       (PStr ''credential_type'')
      = Some (get [(PStr ''id'', PInt 3), (PStr ''name'', PStr ''Custom Vault'')] ''name'')"
    by blast
  then have c1: "map_of [(PStr ''name'', PStr ''c''), (PStr ''description'', PStr ''''),
      (PStr ''credential_type'', PStr ''Custom Vault''), (PStr ''state'', PStr ''present'')]
       (PStr ''credential_type'') = Some (PStr ''Custom Vault'')"
    by (simp only: n1)
  from credential_type_is_the_label [OF h2] g2
  have "map_of [(PStr ''name'', PStr ''k''), (PStr ''description'', PStr ''''),
      (PStr ''credential_type'', PStr ''ssh''), (PStr ''state'', PStr ''present'')]
       (PStr ''credential_type'')
      = (if get [(PStr ''name'', PStr ''k''), (PStr ''credential_type'', PNone),
            (PStr ''kind'', PStr ''ssh'')] ''kind'' = PNone then None
         else Some (get [(PStr ''name'', PStr ''k''), (PStr ''credential_type'', PNone),
            (PStr ''kind'', PStr ''ssh'')] ''kind''))"
    by blast
  then have c2: "map_of [(PStr ''name'', PStr ''k''), (PStr ''description'', PStr ''''),
      (PStr ''credential_type'', PStr ''ssh''), (PStr ''state'', PStr ''present'')]
       (PStr ''credential_type'') = Some (PStr ''ssh'')"
    by (simp only: k2) simp
  from h1 t c1 h2 c2 h3 t3 c3 show ?thesis by (intro conjI)
qed

text \<open>
  Claim C10. The pruning step drops exactly the fields whose value is \<^verbatim>\<open>None\<close>, the
  empty mapping or the empty sequence; a field holding the empty string stays. So
  whenever \<^verbatim>\<open>normalize_credential\<close> returns a record for a raw credential with no
  description (the key absent or null), the record has \<^verbatim>\<open>description\<close> with value
  \<^verbatim>\<open>""\<close>.
\<close>

theorem empty_description_is_kept:
  assumes "normalize_credential c = Inr r" and "get c ''description'' = PNone"
  shows "map_of r (PStr ''description'') = Some (PStr '''') \<and>
         prune p = filter (\<lambda>kv. snd kv \<noteq> PNone \<and> snd kv \<noteq> PDict [] \<and> snd kv \<noteq> PList []) p \<and>
         ((k, PStr '''') \<in> set p \<longrightarrow> (k, PStr '''') \<in> set (prune p))"
proof -
  from assms(1) obtain l inputs0 where
    r: "r = prune
        [(PStr ''name'', priv_stripped (get c ''name'')),
         (PStr ''description'', py_or (get c ''description'') (PStr '''')),
         (PStr ''organization'',
            stripped_if (py_or (priv_name (get c ''organization''))
                               (priv_name (get c ''organization_id'')))),
         (PStr ''credential_type'', l),
         (PStr ''inputs'', PDict (fold pop sensitive_keys inputs0)),
         (PStr ''state'', PStr ''present'')]"
    by (rule normalize_credential_Inr)
  have "map_of r (PStr ''description'') = Some (PStr '''')"
    unfolding r by (subst map_of_prune) (simp_all add: assms(2) py_or_def prunable_def)
  moreover have "prune p =
      filter (\<lambda>kv. snd kv \<noteq> PNone \<and> snd kv \<noteq> PDict [] \<and> snd kv \<noteq> PList []) p"
    by (simp add: prune_def prunable_def)
  moreover have "(k, PStr '''') \<in> set p \<longrightarrow> (k, PStr '''') \<in> set (prune p)"
    by (simp add: prune_def prunable_def)
  ultimately show ?thesis by simp
qed

theorem empty_description_is_kept_witness:
  "normalize_credential [(PStr ''name'', PStr ''c''), (PStr ''kind'', PStr ''ssh'')]
   = Inr [(PStr ''name'', PStr ''c''), (PStr ''description'', PStr ''''),
      (PStr ''credential_type'', PStr ''ssh''), (PStr ''state'', PStr ''present'')]
   \<and> get [(PStr ''name'', PStr ''c''), (PStr ''kind'', PStr ''ssh'')] ''description'' = PNone
   \<and> map_of [(PStr ''name'', PStr ''c''), (PStr ''description'', PStr ''''),
      (PStr ''credential_type'', PStr ''ssh''), (PStr ''state'', PStr ''present'')]
        (PStr ''description'') = Some (PStr '''')"
proof -
  have h: "normalize_credential [(PStr ''name'', PStr ''c''), (PStr ''kind'', PStr ''ssh'')]
   = Inr [(PStr ''name'', PStr ''c''), (PStr ''description'', PStr ''''),
      (PStr ''credential_type'', PStr ''ssh''), (PStr ''state'', PStr ''present'')]"
    by (simp add: eval_defs)
  have g: "get [(PStr ''name'', PStr ''c''), (PStr ''kind'', PStr ''ssh'')] ''description'' = PNone"
    by (simp add: get_def)
  from empty_description_is_kept [OF h g] h g show ?thesis
    by blast
qed

section \<open>The reference resolver\<close>

text \<open>
  Claim C7. \<^verbatim>\<open>_name\<close> returns on every value: for a mapping the value under its
  \<^verbatim>\<open>name\<close> key, or \<^verbatim>\<open>None\<close> when the key is absent; for a string the string itself;
  for \<^verbatim>\<open>None\<close>, a boolean, a number or a list \<^verbatim>\<open>None\<close>. Its body is two
  \<^verbatim>\<open>isinstance\<close> tests and a \<^verbatim>\<open>dict.get\<close> with a string key, none of which can
  raise, so \<open>priv_name\<close> has no error result.
\<close>

theorem priv_name_total:
  "priv_name (PDict d) = (case map_of d (PStr ''name'') of None \<Rightarrow> PNone | Some v \<Rightarrow> v) \<and>
   priv_name (PStr s) = PStr s \<and>
   priv_name PNone = PNone \<and>
   priv_name (PBool b) = PNone \<and>
   priv_name (PInt i) = PNone \<and>
   priv_name (PFloat f) = PNone \<and>
   priv_name (PList xs) = PNone"
  by (simp add: get_def)

section \<open>The sparse-record invariant\<close>

text \<open>
  Claim C2. The claim asks of all seven normalizers that no field of the returned
  record is \<^verbatim>\<open>None\<close>, an empty mapping or an empty sequence. Six of them end with the
  pruning comprehension and keep the promise (\<open>pruned_normalizers_sparse\<close>);
  \<^verbatim>\<open>normalize_org\<close> returns its dict literal unpruned, so a raw organization
  without a name comes back with \<^verbatim>\<open>name\<close> set to \<^verbatim>\<open>None\<close>.
\<close>

theorem normalize_org_keeps_null_name:
  "normalize_org [] = [(PStr ''name'', PNone), (PStr ''state'', PStr ''present'')] \<and>
   normalizer Organization [] = Inr [(PStr ''name'', PNone), (PStr ''state'', PStr ''present'')] \<and>
   map_of (normalize_org []) (PStr ''name'') = Some PNone"
  by (simp add: normalize_org_def get_def)

lemma pruned_normalizers_sparse:
  assumes "k \<noteq> Organization" and "normalizer k raw = Inr r" and "(f, v) \<in> set r"
  shows "v \<noteq> PNone \<and> v \<noteq> PDict [] \<and> v \<noteq> PList []"
proof -
  have "\<exists>p. r = prune p"
  proof (cases k)
    case Organization
    with assms(1) show ?thesis by simp
  next
    case Credential
    with assms(2) have "normalize_credential raw = Inr r" by simp
    then show ?thesis by (rule normalize_credential_Inr) blast
  next
    case Project
    with assms(2) show ?thesis by (auto simp: normalize_project_def Let_def)
  next
    case Inventory
    with assms(2) show ?thesis by (auto simp: normalize_inventory_def Let_def)
  next
    case JobTemplate
    with assms(2) show ?thesis
      by (auto simp: normalize_job_template_def Let_def split: sum.splits)
  next
    case WorkflowTemplate
    with assms(2) show ?thesis by (auto simp: normalize_workflow_template_def Let_def)
  next
    case ExecutionEnvironment
    with assms(2) show ?thesis by (auto simp: normalize_execution_environment_def Let_def)
  qed
  with assms(3) show ?thesis by (auto dest: prune_sparse)
qed

section \<open>The project scenario\<close>

text \<open>
  Claim C5, as amended. The raw project \<^verbatim>\<open>{"name": " Web ", "scm_url": "https://x/y.git"}\<close>
  normalizes to exactly name \<^verbatim>\<open>"Web"\<close>, description \<^verbatim>\<open>""\<close>, scm\_type \<^verbatim>\<open>"git"\<close>,
  scm\_url \<^verbatim>\<open>"https://x/y.git"\<close>, scm\_branch \<^verbatim>\<open>"main"\<close>, scm\_update\_on\_launch
  and allow\_override true, state \<^verbatim>\<open>"present"\<close>, in this order: the empty description
  is not pruned and the URL is carried over.
\<close>

theorem project_scenario:
  "normalize_project [(PStr ''name'', PStr '' Web ''), (PStr ''scm_url'', PStr ''https://x/y.git'')]
   = [(PStr ''name'', PStr ''Web''),
      (PStr ''description'', PStr ''''),
      (PStr ''scm_type'', PStr ''git''),
      (PStr ''scm_url'', PStr ''https://x/y.git''),
      (PStr ''scm_branch'', PStr ''main''),
      (PStr ''scm_update_on_launch'', PBool True),
      (PStr ''allow_override'', PBool True),
      (PStr ''state'', PStr ''present'')]"
  by (simp add: eval_defs)

text \<open>
  Claim C5 as stated fails: the record it names, without \<^verbatim>\<open>description\<close> (and
  without \<^verbatim>\<open>scm_url\<close>), is not what the normalizer returns, which has both fields.
\<close>

theorem project_scenario_counterexample:
  "normalize_project [(PStr ''name'', PStr '' Web ''), (PStr ''scm_url'', PStr ''https://x/y.git'')]
   \<noteq> [(PStr ''name'', PStr ''Web''),
      (PStr ''scm_type'', PStr ''git''),
      (PStr ''scm_branch'', PStr ''main''),
      (PStr ''scm_update_on_launch'', PBool True),
      (PStr ''allow_override'', PBool True),
      (PStr ''state'', PStr ''present'')]
   \<and> map_of (normalize_project
         [(PStr ''name'', PStr '' Web ''), (PStr ''scm_url'', PStr ''https://x/y.git'')])
       (PStr ''description'') = Some (PStr '''')"
  by (simp add: eval_defs)

section \<open>The verifier's exit code\<close>

lemma check_files_all_absent:
  "\<forall>f \<in> set (map fst fs). map_of dir f = None \<Longrightarrow>
   check_files dir fs ws es = Inr (ws @ map (\<lambda>e. MissingExpectedFile (fst e)) fs, es)"
  by (induction fs arbitrary: ws) auto

text \<open>
  Claim C3, as amended. When the directory exists and the run over the expected files
  ends with at least one warning and no error, \<^verbatim>\<open>main\<close> returns 0 without
  \<^verbatim>\<open>--strict\<close> and 1 with it (line 137: \<^verbatim>\<open>return 1 if args.strict else 0\<close>). That
  is the outcome in particular when none of the expected files exists.
\<close>

theorem warnings_only_exit_code:
  "(check_files dir EXPECTED_FILES [] [] = Inr (warnings, []) \<and> warnings \<noteq> [] \<longrightarrow>
      main True strict dir = Inr (if strict then 1 else 0)) \<and>
   ((\<forall>f \<in> set (map fst EXPECTED_FILES). map_of dir f = None) \<longrightarrow>
      main True strict dir = Inr (if strict then 1 else 0))"
proof (intro conjI impI)
  assume "check_files dir EXPECTED_FILES [] [] = Inr (warnings, []) \<and> warnings \<noteq> []"
  then show "main True strict dir = Inr (if strict then 1 else 0)"
    by (simp add: main_def)
next
  assume "\<forall>f \<in> set (map fst EXPECTED_FILES). map_of dir f = None"
  then have "check_files dir EXPECTED_FILES [] [] =
      Inr ([] @ map (\<lambda>e. MissingExpectedFile (fst e)) EXPECTED_FILES, [])"
    by (rule check_files_all_absent)
  moreover have "EXPECTED_FILES \<noteq> []"
    by (simp add: EXPECTED_FILES_def)
  ultimately show "main True strict dir = Inr (if strict then 1 else 0)"
    by (simp add: main_def)
qed

theorem warnings_only_exit_code_witness:
  "check_files [(''README.md'', Broken)] EXPECTED_FILES [] [] =
     Inr ([MissingExpectedFile ''controller_organizations.yml'',
           MissingExpectedFile ''controller_credentials.yml'',
           MissingExpectedFile ''controller_projects.yml'',
           MissingExpectedFile ''controller_inventories.yml'',
           MissingExpectedFile ''controller_templates.yml'',
           MissingExpectedFile ''controller_workflows.yml'',
           MissingExpectedFile ''controller_execution_environments.yml''], [])
   \<and> main True False [(''README.md'', Broken)] = Inr 0
   \<and> main True True [(''README.md'', Broken)] = Inr 1"
proof -
  have h: "check_files [(''README.md'', Broken)] EXPECTED_FILES [] [] =
     Inr ([MissingExpectedFile ''controller_organizations.yml'',
           MissingExpectedFile ''controller_credentials.yml'',
           MissingExpectedFile ''controller_projects.yml'',
           MissingExpectedFile ''controller_inventories.yml'',
           MissingExpectedFile ''controller_templates.yml'',
           MissingExpectedFile ''controller_workflows.yml'',
           MissingExpectedFile ''controller_execution_environments.yml''], [])"
    by (simp add: EXPECTED_FILES_def)
  note t = warnings_only_exit_code
    [of "[(''README.md'', Broken)]"
        "[MissingExpectedFile ''controller_organizations.yml'',
          MissingExpectedFile ''controller_credentials.yml'',
          MissingExpectedFile ''controller_projects.yml'',
          MissingExpectedFile ''controller_inventories.yml'',
          MissingExpectedFile ''controller_templates.yml'',
          MissingExpectedFile ''controller_workflows.yml'',
          MissingExpectedFile ''controller_execution_environments.yml'']"]
  from t [of False] h have "main True False [(''README.md'', Broken)] = Inr 0" by simp
  moreover from t [of True] h have "main True True [(''README.md'', Broken)] = Inr 1" by simp
  ultimately show ?thesis using h by simp
qed

text \<open>
  Claim C3 as stated fails in strict mode: on an existing directory with none of the
  expected files, seven warnings and no error are collected and the exit code is 1,
  not 2.
\<close>

theorem warnings_only_exit_code_counterexample:
  "check_files [] EXPECTED_FILES [] [] =
     Inr ([MissingExpectedFile ''controller_organizations.yml'',
           MissingExpectedFile ''controller_credentials.yml'',
           MissingExpectedFile ''controller_projects.yml'',
           MissingExpectedFile ''controller_inventories.yml'',
           MissingExpectedFile ''controller_templates.yml'',
           MissingExpectedFile ''controller_workflows.yml'',
           MissingExpectedFile ''controller_execution_environments.yml''], [])
   \<and> main True True [] = Inr 1 \<and> main True True [] \<noteq> Inr 2"
  by (simp add: main_def EXPECTED_FILES_def)

section \<open>Stripping\<close>

lemma strip_is_stripped: "is_stripped (strip s)"
proof (cases "strip s = []")
  case True
  then show ?thesis by (simp add: is_stripped_def)
next
  case False
  define t where "t = dropWhile isspace s"
  define u where "u = dropWhile isspace (rev t)"
  have s: "strip s = rev u" by (simp add: strip_def t_def u_def)
  with False have u: "u \<noteq> []" by simp
  then have t: "t \<noteq> []" by (auto simp: u_def)
  have "\<not> isspace (hd u)" using u unfolding u_def by (rule hd_dropWhile)
  then have l: "\<not> isspace (last (strip s))" using u by (simp add: s last_rev)
  obtain ws where "rev t = ws @ u" 
    unfolding u_def by (metis takeWhile_dropWhile_id)
  then have "last (rev t) = last u" using u by simp
  then have "hd t = last u" using t by (simp add: last_rev)
  moreover have "\<not> isspace (hd t)" using t unfolding t_def by (rule hd_dropWhile)
  ultimately have "\<not> isspace (hd (strip s))" using u by (simp add: s hd_rev)
  with l show ?thesis by (simp add: is_stripped_def)
qed

lemma strip_stripped: "is_stripped s \<Longrightarrow> strip s = s"
proof (cases "s = []")
  case True
  then show ?thesis by (simp add: strip_def)
next
  case False
  assume "is_stripped s"
  with False have h: "\<not> isspace (hd s)" and l: "\<not> isspace (last s)"
    by (simp_all add: is_stripped_def)
  from False h have "dropWhile isspace s = s" by (cases s) simp_all
  moreover have "dropWhile isspace (rev s) = rev s"
  proof (cases "rev s")
    case Nil
    with False show ?thesis by simp
  next
    case (Cons a as)
    have "hd (rev s) = last s" by (simp add: hd_rev)
    with Cons l have "\<not> isspace a" by simp
    with Cons show ?thesis by simp
  qed
  ultimately show ?thesis by (simp add: strip_def)
qed

lemma strip_idem: "strip (strip s) = strip s"
  by (rule strip_stripped) (rule strip_is_stripped)

lemma strip_trims:
  "\<exists>l t. s = l @ strip s @ t \<and> list_all isspace l \<and> list_all isspace t"
proof -
  define m where "m = dropWhile isspace s"
  have s: "s = takeWhile isspace s @ m"
    by (simp add: m_def)
  have "rev (rev m) = rev (takeWhile isspace (rev m) @ dropWhile isspace (rev m))"
    by (simp only: takeWhile_dropWhile_id)
  then have "m = rev (dropWhile isspace (rev m)) @ rev (takeWhile isspace (rev m))"
    by (simp only: rev_rev_ident rev_append)
  then have m: "m = strip s @ rev (takeWhile isspace (rev m))"
    by (simp only: strip_def m_def)
  have "list_all isspace (takeWhile isspace s)"
    by (simp add: list_all_iff) (meson set_takeWhileD)
  moreover have "list_all isspace (rev (takeWhile isspace (rev m)))"
    by (simp add: list_all_iff) (meson set_takeWhileD)
  moreover from s m have "s = takeWhile isspace s @ strip s @ rev (takeWhile isspace (rev m))"
    by simp
  ultimately show ?thesis by blast
qed

lemma map_of_pruneD:
  "map_of (prune p) k = Some v \<Longrightarrow> distinct (map fst p) \<Longrightarrow> map_of p k = Some v"
  by (simp add: map_of_prune split: option.splits if_splits)

lemma priv_stripped_is_stripped: "priv_stripped x = PStr s \<Longrightarrow> is_stripped s"
  by (cases x) (auto simp: strip_is_stripped)

lemma stripped_if_is_stripped: "stripped_if x = PStr s \<Longrightarrow> is_stripped s"
  by (auto simp: stripped_if_def priv_stripped_is_stripped split: if_splits)

lemma resolve_credentials_is_stripped:
  "PStr s \<in> set (resolve_credentials cs) \<Longrightarrow> is_stripped s"
  by (auto simp: resolve_credentials_def dest: priv_stripped_is_stripped [OF sym])

lemmas stripped_values = priv_stripped_is_stripped stripped_if_is_stripped


section \<open>Strings written to the canonical record\<close>

lemma written_names_have_no_blank_ends:
  assumes "normalizer k raw = Inr r"
  shows "(\<forall>f \<in> set (stripped_fields k). \<forall>s. map_of r (PStr f) = Some (PStr s) \<longrightarrow> is_stripped s) \<and>
         (\<forall>cs s. k = JobTemplate \<and> map_of r (PStr ''credentials'') = Some (PList cs) \<and>
                 PStr s \<in> set cs \<longrightarrow> is_stripped s)"
proof (cases k)
  case Organization
  with assms show ?thesis
    by (auto simp: normalize_org_def stripped_values)
next
  case Credential
  with assms have "normalize_credential raw = Inr r" by simp
  then obtain l inputs0 where
    r: "r = prune
        [(PStr ''name'', priv_stripped (get raw ''name'')),
         (PStr ''description'', py_or (get raw ''description'') (PStr '''')),
         (PStr ''organization'',
            stripped_if (py_or (priv_name (get raw ''organization''))
                               (priv_name (get raw ''organization_id'')))),
         (PStr ''credential_type'', l),
         (PStr ''inputs'', PDict (fold pop sensitive_keys inputs0)),
         (PStr ''state'', PStr ''present'')]"
    by (rule normalize_credential_Inr)
  show ?thesis
    unfolding r using Credential
    by (auto dest!: map_of_pruneD simp: stripped_values)
next
  case Project
  with assms show ?thesis
    by (auto simp: normalize_project_def Let_def stripped_values dest!: map_of_pruneD)
next
  case Inventory
  with assms show ?thesis
    by (auto simp: normalize_inventory_def Let_def stripped_values dest!: map_of_pruneD)
next
  case JobTemplate
  with assms obtain cs where
    r: "r = prune
        [(PStr ''name'', priv_stripped (get raw ''name'')),
         (PStr ''description'', py_or (get raw ''description'') (PStr '''')),
         (PStr ''organization'', stripped_if (priv_name (get raw ''organization''))),
         (PStr ''project'', stripped_if (priv_name (get raw ''project''))),
         (PStr ''inventory'', stripped_if (priv_name (get raw ''inventory''))),
         (PStr ''execution_environment'',
            stripped_if (priv_name (get raw ''execution_environment''))),
         (PStr ''job_type'', py_or (get raw ''job_type'') (PStr ''run'')),
         (PStr ''playbook'', get raw ''playbook''),
         (PStr ''credentials'', PList (resolve_credentials cs)),
         (PStr ''survey_enabled'', py_bool (get raw ''survey_enabled'')),
         (PStr ''limit'', py_or (get raw ''limit'') (PStr '''')),
         (PStr ''verbosity'', py_or (get raw ''verbosity'') (PInt 0)),
         (PStr ''state'', PStr ''present'')]"
    by (auto simp: normalize_job_template_def Let_def split: sum.splits)
  show ?thesis
    unfolding r using JobTemplate
    by (auto dest!: map_of_pruneD simp: stripped_values resolve_credentials_is_stripped)
next
  case WorkflowTemplate
  with assms show ?thesis
    by (auto simp: normalize_workflow_template_def Let_def stripped_values dest!: map_of_pruneD)
next
  case ExecutionEnvironment
  with assms show ?thesis
    by (auto simp: normalize_execution_environment_def Let_def stripped_values
        dest!: map_of_pruneD)
qed

lemma reference_written:
  assumes "s \<noteq> []"
    and "x = PStr s \<or> (\<exists>d. x = PDict d \<and> get d ''name'' = PStr s)"
  shows "stripped_if (priv_name x) = PStr (strip s)"
    and "stripped_if (py_or (priv_name x) y) = PStr (strip s)"
  using assms by (auto simp: stripped_if_def py_or_def)

lemma PStr_not_prunable: "\<not> prunable (PStr s)"
  by (simp add: prunable_def)

lemma direct_fields_written:
  assumes "normalizer k raw = Inr r"
  shows "\<forall>f \<in> set (direct_fields k). \<forall>s. get raw f = PStr s \<longrightarrow>
           map_of r (PStr f) = Some (PStr (strip s))"
proof (cases k)
  case Organization
  with assms show ?thesis by (auto simp: normalize_org_def)
next
  case Credential
  with assms have "normalize_credential raw = Inr r" by simp
  then obtain l inputs0 where
    r: "r = prune
        [(PStr ''name'', priv_stripped (get raw ''name'')),
         (PStr ''description'', py_or (get raw ''description'') (PStr '''')),
         (PStr ''organization'',
            stripped_if (py_or (priv_name (get raw ''organization''))
                               (priv_name (get raw ''organization_id'')))),
         (PStr ''credential_type'', l),
         (PStr ''inputs'', PDict (fold pop sensitive_keys inputs0)),
         (PStr ''state'', PStr ''present'')]"
    by (rule normalize_credential_Inr)
  show ?thesis
    unfolding r using Credential by (simp add: map_of_prune PStr_not_prunable)
next
  case Project
  with assms show ?thesis
    by (auto simp: normalize_project_def Let_def map_of_prune PStr_not_prunable)
next
  case Inventory
  with assms show ?thesis
    by (auto simp: normalize_inventory_def Let_def map_of_prune PStr_not_prunable)
next
  case JobTemplate
  with assms show ?thesis
    by (auto simp: normalize_job_template_def Let_def map_of_prune PStr_not_prunable
        split: sum.splits)
next
  case WorkflowTemplate
  with assms show ?thesis
    by (auto simp: normalize_workflow_template_def Let_def map_of_prune PStr_not_prunable)
next
  case ExecutionEnvironment
  with assms show ?thesis
    by (auto simp: normalize_execution_environment_def Let_def map_of_prune PStr_not_prunable)
qed

lemma reference_fields_written:
  assumes "normalizer k raw = Inr r"
  shows "\<forall>f \<in> set (reference_fields k). \<forall>s.
           s \<noteq> [] \<and> (get raw f = PStr s \<or> (\<exists>d. get raw f = PDict d \<and> get d ''name'' = PStr s)) \<longrightarrow>
           map_of r (PStr f) = Some (PStr (strip s))"
proof (cases k)
  case Organization
  then show ?thesis by simp
next
  case Credential
  with assms have "normalize_credential raw = Inr r" by simp
  then obtain l inputs0 where
    r: "r = prune
        [(PStr ''name'', priv_stripped (get raw ''name'')),
         (PStr ''description'', py_or (get raw ''description'') (PStr '''')),
         (PStr ''organization'',
            stripped_if (py_or (priv_name (get raw ''organization''))
                               (priv_name (get raw ''organization_id'')))),
         (PStr ''credential_type'', l),
         (PStr ''inputs'', PDict (fold pop sensitive_keys inputs0)),
         (PStr ''state'', PStr ''present'')]"
    by (rule normalize_credential_Inr)
  show ?thesis
    unfolding r using Credential
    by (auto simp: map_of_prune PStr_not_prunable reference_written simp del: priv_name.simps)
next
  case Project
  with assms show ?thesis
    by (auto simp: normalize_project_def Let_def map_of_prune PStr_not_prunable
        reference_written simp del: priv_name.simps)
next
  case Inventory
  with assms show ?thesis
    by (auto simp: normalize_inventory_def Let_def map_of_prune PStr_not_prunable
        reference_written simp del: priv_name.simps)
next
  case JobTemplate
  with assms obtain cs where
    r: "r = prune
        [(PStr ''name'', priv_stripped (get raw ''name'')),
         (PStr ''description'', py_or (get raw ''description'') (PStr '''')),
         (PStr ''organization'', stripped_if (priv_name (get raw ''organization''))),
         (PStr ''project'', stripped_if (priv_name (get raw ''project''))),
         (PStr ''inventory'', stripped_if (priv_name (get raw ''inventory''))),
         (PStr ''execution_environment'',
            stripped_if (priv_name (get raw ''execution_environment''))),
         (PStr ''job_type'', py_or (get raw ''job_type'') (PStr ''run'')),
         (PStr ''playbook'', get raw ''playbook''),
         (PStr ''credentials'', PList (resolve_credentials cs)),
         (PStr ''survey_enabled'', py_bool (get raw ''survey_enabled'')),
         (PStr ''limit'', py_or (get raw ''limit'') (PStr '''')),
         (PStr ''verbosity'', py_or (get raw ''verbosity'') (PInt 0)),
         (PStr ''state'', PStr ''present'')]"
    by (auto simp: normalize_job_template_def Let_def split: sum.splits)
  show ?thesis
    unfolding r using JobTemplate
    by (auto simp: map_of_prune PStr_not_prunable reference_written simp del: priv_name.simps)
next
  case WorkflowTemplate
  with assms show ?thesis
    by (auto simp: normalize_workflow_template_def Let_def map_of_prune PStr_not_prunable
        reference_written simp del: priv_name.simps)
next
  case ExecutionEnvironment
  with assms show ?thesis
    by (auto simp: normalize_execution_environment_def Let_def map_of_prune PStr_not_prunable
        reference_written simp del: priv_name.simps)
qed

lemma named_entry:
  "priv_name c = PStr s \<longleftrightarrow> c = PStr s \<or> (\<exists>d. c = PDict d \<and> get d ''name'' = PStr s)"
  by (cases c) auto

lemma job_template_Inr_list:
  assumes "normalize_job_template t = Inr r" and "get t ''credentials'' = PList cs"
  shows "map_of r (PStr ''credentials'') =
           (if resolve_credentials cs = [] then None else Some (PList (resolve_credentials cs)))"
proof -
  have it: "py_iter (py_or (get t ''credentials'') (PList [])) = Inr cs"
    by (simp add: assms(2) py_or_def)
  from assms(1) have
    r: "r = prune
        [(PStr ''name'', priv_stripped (get t ''name'')),
         (PStr ''description'', py_or (get t ''description'') (PStr '''')),
         (PStr ''organization'', stripped_if (priv_name (get t ''organization''))),
         (PStr ''project'', stripped_if (priv_name (get t ''project''))),
         (PStr ''inventory'', stripped_if (priv_name (get t ''inventory''))),
         (PStr ''execution_environment'',
            stripped_if (priv_name (get t ''execution_environment''))),
         (PStr ''job_type'', py_or (get t ''job_type'') (PStr ''run'')),
         (PStr ''playbook'', get t ''playbook''),
         (PStr ''credentials'', PList (resolve_credentials cs)),
         (PStr ''survey_enabled'', py_bool (get t ''survey_enabled'')),
         (PStr ''limit'', py_or (get t ''limit'') (PStr '''')),
         (PStr ''verbosity'', py_or (get t ''verbosity'') (PInt 0)),
         (PStr ''state'', PStr ''present'')]"
    by (simp add: normalize_job_template_def Let_def it)
  show ?thesis
    unfolding r by (subst map_of_prune) (simp_all add: prunable_def)
qed

lemma credentials_entries_written:
  assumes "normalizer k raw = Inr r"
  shows "(\<forall>cs ys t. k = JobTemplate \<and> get raw ''credentials'' = PList cs \<and>
            map_of r (PStr ''credentials'') = Some (PList ys) \<and> PStr t \<in> set ys \<longrightarrow>
            (\<exists>c \<in> set cs. \<exists>s. s \<noteq> [] \<and>
               (c = PStr s \<or> (\<exists>d. c = PDict d \<and> get d ''name'' = PStr s)) \<and> t = strip s)) \<and>
         (\<forall>cs c s. k = JobTemplate \<and> get raw ''credentials'' = PList cs \<and> c \<in> set cs \<and>
            s \<noteq> [] \<and> (c = PStr s \<or> (\<exists>d. c = PDict d \<and> get d ''name'' = PStr s)) \<longrightarrow>
            (\<exists>ys. map_of r (PStr ''credentials'') = Some (PList ys) \<and> PStr (strip s) \<in> set ys))"
proof (intro conjI allI impI)
  fix cs ys t
  assume a: "k = JobTemplate \<and> get raw ''credentials'' = PList cs \<and>
     map_of r (PStr ''credentials'') = Some (PList ys) \<and> PStr t \<in> set ys"
  with assms have "normalize_job_template raw = Inr r" by simp
  from job_template_Inr_list [OF this] a have "ys = resolve_credentials cs"
    by (auto split: if_splits)
  with a obtain c where c: "c \<in> set cs" "PStr t = priv_stripped (priv_name c)"
    "truthy (priv_name c)"
    by (auto simp: resolve_credentials_def)
  then obtain s where s: "priv_name c = PStr s" "t = strip s"
    by (cases "priv_name c") simp_all
  from s(1) c(3) have "s \<noteq> []" by simp
  moreover from s(1) have "c = PStr s \<or> (\<exists>d. c = PDict d \<and> get d ''name'' = PStr s)"
    by (simp only: named_entry)
  ultimately show "\<exists>c \<in> set cs. \<exists>s. s \<noteq> [] \<and>
      (c = PStr s \<or> (\<exists>d. c = PDict d \<and> get d ''name'' = PStr s)) \<and> t = strip s"
    using c(1) s(2) by blast
next
  fix cs c s
  assume a: "k = JobTemplate \<and> get raw ''credentials'' = PList cs \<and> c \<in> set cs \<and>
     s \<noteq> [] \<and> (c = PStr s \<or> (\<exists>d. c = PDict d \<and> get d ''name'' = PStr s))"
  with assms have "normalize_job_template raw = Inr r" by simp
  note m = job_template_Inr_list [OF this, of cs]
  from a have "priv_name c = PStr s" by (simp only: named_entry)
  with a have "PStr (strip s) \<in> set (resolve_credentials cs)"
    by (force simp: resolve_credentials_def)
  moreover then have "resolve_credentials cs \<noteq> []" by auto
  ultimately show "\<exists>ys. map_of r (PStr ''credentials'') = Some (PList ys) \<and> PStr (strip s) \<in> set ys"
    using m a by simp
qed

text \<open>
  Claim C6, as amended. In every record a normalizer returns, the values written
  through \<^verbatim>\<open>_stripped\<close> are the raw strings with leading and trailing whitespace
  removed: \<^verbatim>\<open>name\<close> (every kind) and \<^verbatim>\<open>image\<close> (execution environment) whenever the
  raw value is a string; \<^verbatim>\<open>organization\<close> (every kind that has it) and \<^verbatim>\<open>project\<close>,
  \<^verbatim>\<open>inventory\<close>, \<^verbatim>\<open>execution_environment\<close> (job template) whenever the raw reference
  is a non-empty string or a mapping whose \<^verbatim>\<open>name\<close> is a non-empty string; and the
  string entries of a job template's \<^verbatim>\<open>credentials\<close>, which (the raw \<^verbatim>\<open>credentials\<close>
  being a list) are exactly the stripped names of the raw entries that are a non-empty
  string or a mapping whose \<^verbatim>\<open>name\<close> is a non-empty string. Whatever string one of
  these fields holds has no whitespace at either end. Here \<open>strip s\<close> is \<open>s\<close>
  without a leading and a trailing run of whitespace, and has none left at its ends.
\<close>

theorem name_fields_are_stripped:
  assumes "normalizer k raw = Inr r"
  shows "(\<forall>f \<in> set (stripped_fields k). \<forall>s. map_of r (PStr f) = Some (PStr s) \<longrightarrow> is_stripped s) \<and>
         (\<forall>cs s. k = JobTemplate \<and> map_of r (PStr ''credentials'') = Some (PList cs) \<and>
                 PStr s \<in> set cs \<longrightarrow> is_stripped s) \<and>
         (\<forall>f \<in> set (direct_fields k). \<forall>s. get raw f = PStr s \<longrightarrow>
            map_of r (PStr f) = Some (PStr (strip s))) \<and>
         (\<forall>f \<in> set (reference_fields k). \<forall>s.
            s \<noteq> [] \<and> (get raw f = PStr s \<or> (\<exists>d. get raw f = PDict d \<and> get d ''name'' = PStr s)) \<longrightarrow>
            map_of r (PStr f) = Some (PStr (strip s))) \<and>
         (\<forall>cs ys t. k = JobTemplate \<and> get raw ''credentials'' = PList cs \<and>
            map_of r (PStr ''credentials'') = Some (PList ys) \<and> PStr t \<in> set ys \<longrightarrow>
            (\<exists>c \<in> set cs. \<exists>s. s \<noteq> [] \<and>
               (c = PStr s \<or> (\<exists>d. c = PDict d \<and> get d ''name'' = PStr s)) \<and> t = strip s)) \<and>
         (\<forall>cs c s. k = JobTemplate \<and> get raw ''credentials'' = PList cs \<and> c \<in> set cs \<and>
            s \<noteq> [] \<and> (c = PStr s \<or> (\<exists>d. c = PDict d \<and> get d ''name'' = PStr s)) \<longrightarrow>
            (\<exists>ys. map_of r (PStr ''credentials'') = Some (PList ys) \<and> PStr (strip s) \<in> set ys)) \<and>
         (\<forall>s. \<exists>l t. s = l @ strip s @ t \<and> list_all isspace l \<and> list_all isspace t \<and>
                is_stripped (strip s))"
proof -
  note ends = written_names_have_no_blank_ends [OF assms]
  note entries = credentials_entries_written [OF assms]
  have trims: "\<forall>s. \<exists>l t. s = l @ strip s @ t \<and> list_all isspace l \<and> list_all isspace t \<and>
                is_stripped (strip s)"
    using strip_trims strip_is_stripped by blast
  from ends direct_fields_written [OF assms] reference_fields_written [OF assms] entries trims
  show ?thesis
    by (intro conjI) (erule conjunct1 conjunct2 | assumption)+
qed

theorem name_fields_are_stripped_witness:
  "normalizer JobTemplate
     [(PStr ''name'', PStr '' Deploy ''),
      (PStr ''organization'', PDict [(PStr ''name'', PStr ''Default  '')]),
      (PStr ''project'', PStr '' Web''),
      (PStr ''credentials'', PList [PStr '' Vault Cred'', PDict [(PStr ''id'', PInt 7)]])]
   = Inr [(PStr ''name'', PStr ''Deploy''), (PStr ''description'', PStr ''''),
      (PStr ''organization'', PStr ''Default''),
      (PStr ''project'', PStr ''Web''),
      (PStr ''job_type'', PStr ''run''),
      (PStr ''credentials'', PList [PStr ''Vault Cred'']),
      (PStr ''survey_enabled'', PBool False), (PStr ''limit'', PStr ''''),
      (PStr ''verbosity'', PInt 0), (PStr ''state'', PStr ''present'')]
   \<and> map_of [(PStr ''name'', PStr ''Deploy''), (PStr ''description'', PStr ''''),
      (PStr ''organization'', PStr ''Default''),
      (PStr ''project'', PStr ''Web''),
      (PStr ''job_type'', PStr ''run''),
      (PStr ''credentials'', PList [PStr ''Vault Cred'']),
      (PStr ''survey_enabled'', PBool False), (PStr ''limit'', PStr ''''),
      (PStr ''verbosity'', PInt 0), (PStr ''state'', PStr ''present'')] (PStr ''name'')
     = Some (PStr (strip '' Deploy ''))
   \<and> map_of [(PStr ''name'', PStr ''Deploy''), (PStr ''description'', PStr ''''),
      (PStr ''organization'', PStr ''Default''),
      (PStr ''project'', PStr ''Web''),
      (PStr ''job_type'', PStr ''run''),
      (PStr ''credentials'', PList [PStr ''Vault Cred'']),
      (PStr ''survey_enabled'', PBool False), (PStr ''limit'', PStr ''''),
      (PStr ''verbosity'', PInt 0), (PStr ''state'', PStr ''present'')] (PStr ''organization'')
     = Some (PStr (strip ''Default  ''))
   \<and> map_of [(PStr ''name'', PStr ''Deploy''), (PStr ''description'', PStr ''''),
      (PStr ''organization'', PStr ''Default''),
      (PStr ''project'', PStr ''Web''),
      (PStr ''job_type'', PStr ''run''),
      (PStr ''credentials'', PList [PStr ''Vault Cred'']),
      (PStr ''survey_enabled'', PBool False), (PStr ''limit'', PStr ''''),
      (PStr ''verbosity'', PInt 0), (PStr ''state'', PStr ''present'')] (PStr ''project'')
     = Some (PStr (strip '' Web''))
   \<and> strip '' Deploy '' = ''Deploy'' \<and> strip ''Default  '' = ''Default''
   \<and> strip '' Web'' = ''Web''
   \<and> is_stripped ''Deploy'' \<and> is_stripped ''Default'' \<and> is_stripped ''Vault Cred''"
proof -
  have h: "normalizer JobTemplate
     [(PStr ''name'', PStr '' Deploy ''),
      (PStr ''organization'', PDict [(PStr ''name'', PStr ''Default  '')]),
      (PStr ''project'', PStr '' Web''),
      (PStr ''credentials'', PList [PStr '' Vault Cred'', PDict [(PStr ''id'', PInt 7)]])]
   = Inr [(PStr ''name'', PStr ''Deploy''), (PStr ''description'', PStr ''''),
      (PStr ''organization'', PStr ''Default''),
      (PStr ''project'', PStr ''Web''),
      (PStr ''job_type'', PStr ''run''),
      (PStr ''credentials'', PList [PStr ''Vault Cred'']),
      (PStr ''survey_enabled'', PBool False), (PStr ''limit'', PStr ''''),
      (PStr ''verbosity'', PInt 0), (PStr ''state'', PStr ''present'')]"
    by (simp add: eval_defs)
  have e: "strip '' Deploy '' = ''Deploy''" "strip ''Default  '' = ''Default''"
    "strip '' Web'' = ''Web''"
    by (simp_all add: strip_def isspace_def whitespace_def)
  note t = name_fields_are_stripped [OF h]
  from t have n: "map_of [(PStr ''name'', PStr ''Deploy''), (PStr ''description'', PStr ''''),
      (PStr ''organization'', PStr ''Default''),
      (PStr ''project'', PStr ''Web''),
      (PStr ''job_type'', PStr ''run''),
      (PStr ''credentials'', PList [PStr ''Vault Cred'']),
      (PStr ''survey_enabled'', PBool False), (PStr ''limit'', PStr ''''),
      (PStr ''verbosity'', PInt 0), (PStr ''state'', PStr ''present'')] (PStr ''name'')
     = Some (PStr (strip '' Deploy ''))"
    by (simp add: get_def)
  from t have o: "map_of [(PStr ''name'', PStr ''Deploy''), (PStr ''description'', PStr ''''),
      (PStr ''organization'', PStr ''Default''),
      (PStr ''project'', PStr ''Web''),
      (PStr ''job_type'', PStr ''run''),
      (PStr ''credentials'', PList [PStr ''Vault Cred'']),
      (PStr ''survey_enabled'', PBool False), (PStr ''limit'', PStr ''''),
      (PStr ''verbosity'', PInt 0), (PStr ''state'', PStr ''present'')] (PStr ''organization'')
     = Some (PStr (strip ''Default  ''))"
    by (simp add: get_def)
  from t have p: "map_of [(PStr ''name'', PStr ''Deploy''), (PStr ''description'', PStr ''''),
      (PStr ''organization'', PStr ''Default''),
      (PStr ''project'', PStr ''Web''),
      (PStr ''job_type'', PStr ''run''),
      (PStr ''credentials'', PList [PStr ''Vault Cred'']),
      (PStr ''survey_enabled'', PBool False), (PStr ''limit'', PStr ''''),
      (PStr ''verbosity'', PInt 0), (PStr ''state'', PStr ''present'')] (PStr ''project'')
     = Some (PStr (strip '' Web''))"
    by (simp add: get_def)
  from t have s1: "is_stripped ''Deploy''" by simp
  from t have s2: "is_stripped ''Default''" by simp
  from t have s3: "is_stripped ''Vault Cred''" by simp
  from h n o p e s1 s2 s3 show ?thesis by (intro conjI)
qed

text \<open>
  Claim C6 as stated fails: \<^verbatim>\<open>description\<close> is written as \<^verbatim>\<open>p.get("description") or ""\<close>,
  without \<^verbatim>\<open>_stripped\<close>, so a project description keeps its surrounding blanks.
\<close>

theorem name_fields_are_stripped_counterexample:
  "normalizer Project [(PStr ''name'', PStr ''p''), (PStr ''description'', PStr '' d '')]
   = Inr [(PStr ''name'', PStr ''p''), (PStr ''description'', PStr '' d ''),
      (PStr ''scm_type'', PStr ''manual''),
      (PStr ''scm_branch'', PStr ''main''),
      (PStr ''scm_update_on_launch'', PBool True),
      (PStr ''allow_override'', PBool True),
      (PStr ''state'', PStr ''present'')]
   \<and> map_of [(PStr ''name'', PStr ''p''), (PStr ''description'', PStr '' d ''),
      (PStr ''scm_type'', PStr ''manual''),
      (PStr ''scm_branch'', PStr ''main''),
      (PStr ''scm_update_on_launch'', PBool True),
      (PStr ''allow_override'', PBool True),
      (PStr ''state'', PStr ''present'')] (PStr ''description'') = Some (PStr '' d '')
   \<and> \<not> is_stripped '' d ''"
  by (simp add: eval_defs is_stripped_def)

section \<open>The credentials of a job template\<close>

lemma resolve_credentials_eq:
  "resolve_credentials cs = map priv_stripped (filter truthy (map priv_name cs))"
  by (simp add: resolve_credentials_def filter_map comp_def)


text \<open>
  Claim C8, as amended. When \<^verbatim>\<open>normalize_job_template\<close> returns a record for a raw
  job template whose \<^verbatim>\<open>credentials\<close> is a list (an absent, null or otherwise falsy
  \<^verbatim>\<open>credentials\<close> counts as the empty list), the record's \<^verbatim>\<open>credentials\<close> is the
  list of the names resolved from the entries, in order, keeping the truthy names only
  (so \<^verbatim>\<open>None\<close> is dropped, and so is an empty name) and stripping each kept name; the
  field is left out when that list is empty. The raw list
  \<^verbatim>\<open>[{"name": "Vault Cred"}, {"id": 7}]\<close> gives \<^verbatim>\<open>["Vault Cred"]\<close>.
\<close>

theorem job_template_credentials:
  assumes "normalize_job_template t = Inr r"
    and "py_or (get t ''credentials'') (PList []) = PList cs"
  shows "map_of r (PStr ''credentials'') =
           (if map priv_stripped (filter truthy (map priv_name cs)) = [] then None
            else Some (PList (map priv_stripped (filter truthy (map priv_name cs))))) \<and>
         (cs = [PDict [(PStr ''name'', PStr ''Vault Cred'')], PDict [(PStr ''id'', PInt 7)]] \<longrightarrow>
            map_of r (PStr ''credentials'') = Some (PList [PStr ''Vault Cred'']))"
proof -
  have it: "py_iter (py_or (get t ''credentials'') (PList [])) = Inr cs"
    by (simp add: assms(2))
  from assms(1) have
    r: "r = prune
        [(PStr ''name'', priv_stripped (get t ''name'')),
         (PStr ''description'', py_or (get t ''description'') (PStr '''')),
         (PStr ''organization'', stripped_if (priv_name (get t ''organization''))),
         (PStr ''project'', stripped_if (priv_name (get t ''project''))),
         (PStr ''inventory'', stripped_if (priv_name (get t ''inventory''))),
         (PStr ''execution_environment'',
            stripped_if (priv_name (get t ''execution_environment''))),
         (PStr ''job_type'', py_or (get t ''job_type'') (PStr ''run'')),
         (PStr ''playbook'', get t ''playbook''),
         (PStr ''credentials'', PList (resolve_credentials cs)),
         (PStr ''survey_enabled'', py_bool (get t ''survey_enabled'')),
         (PStr ''limit'', py_or (get t ''limit'') (PStr '''')),
         (PStr ''verbosity'', py_or (get t ''verbosity'') (PInt 0)),
         (PStr ''state'', PStr ''present'')]"
    by (simp add: normalize_job_template_def Let_def it)
  have m: "map_of r (PStr ''credentials'') =
        (if resolve_credentials cs = [] then None else Some (PList (resolve_credentials cs)))"
    unfolding r by (subst map_of_prune) (simp_all add: prunable_def)
  have ex: "resolve_credentials
              [PDict [(PStr ''name'', PStr ''Vault Cred'')], PDict [(PStr ''id'', PInt 7)]]
            = [PStr ''Vault Cred'']"
    by (simp add: resolve_credentials_def get_def strip_def isspace_def whitespace_def)
  from m ex show ?thesis
    by (auto simp: resolve_credentials_eq)
qed

theorem job_template_credentials_witness:
  "normalize_job_template
     [(PStr ''name'', PStr ''Deploy''),
      (PStr ''credentials'',
         PList [PDict [(PStr ''name'', PStr ''Vault Cred'')], PDict [(PStr ''id'', PInt 7)]])]
   = Inr [(PStr ''name'', PStr ''Deploy''), (PStr ''description'', PStr ''''),
      (PStr ''job_type'', PStr ''run''),
      (PStr ''credentials'', PList [PStr ''Vault Cred'']),
      (PStr ''survey_enabled'', PBool False), (PStr ''limit'', PStr ''''),
      (PStr ''verbosity'', PInt 0), (PStr ''state'', PStr ''present'')]
   \<and> py_or (get [(PStr ''name'', PStr ''Deploy''),
      (PStr ''credentials'',
         PList [PDict [(PStr ''name'', PStr ''Vault Cred'')], PDict [(PStr ''id'', PInt 7)]])]
       ''credentials'') (PList [])
     = PList [PDict [(PStr ''name'', PStr ''Vault Cred'')], PDict [(PStr ''id'', PInt 7)]]
   \<and> map_of [(PStr ''name'', PStr ''Deploy''), (PStr ''description'', PStr ''''),
      (PStr ''job_type'', PStr ''run''),
      (PStr ''credentials'', PList [PStr ''Vault Cred'']),
      (PStr ''survey_enabled'', PBool False), (PStr ''limit'', PStr ''''),
      (PStr ''verbosity'', PInt 0), (PStr ''state'', PStr ''present'')] (PStr ''credentials'')
     = Some (PList [PStr ''Vault Cred''])"
proof -
  have h: "normalize_job_template
     [(PStr ''name'', PStr ''Deploy''),
      (PStr ''credentials'',
         PList [PDict [(PStr ''name'', PStr ''Vault Cred'')], PDict [(PStr ''id'', PInt 7)]])]
   = Inr [(PStr ''name'', PStr ''Deploy''), (PStr ''description'', PStr ''''),
      (PStr ''job_type'', PStr ''run''),
      (PStr ''credentials'', PList [PStr ''Vault Cred'']),
      (PStr ''survey_enabled'', PBool False), (PStr ''limit'', PStr ''''),
      (PStr ''verbosity'', PInt 0), (PStr ''state'', PStr ''present'')]"
    by (simp add: eval_defs)
  have g: "py_or (get [(PStr ''name'', PStr ''Deploy''),
      (PStr ''credentials'',
         PList [PDict [(PStr ''name'', PStr ''Vault Cred'')], PDict [(PStr ''id'', PInt 7)]])]
       ''credentials'') (PList [])
     = PList [PDict [(PStr ''name'', PStr ''Vault Cred'')], PDict [(PStr ''id'', PInt 7)]]"
    by (simp add: get_def py_or_def)
  from job_template_credentials [OF h g] h g show ?thesis
    by blast
qed

text \<open>
  Claim C8 as stated fails: the comprehension keeps an entry when its name is truthy,
  not when it is non-null, and strips the names it keeps. For the raw list
  \<^verbatim>\<open>[{"name": ""}, " a "]\<close> both names are non-null, so the claim's list is
  \<^verbatim>\<open>["", " a "]\<close>; the normalizer writes \<^verbatim>\<open>["a"]\<close>.
\<close>

theorem job_template_credentials_counterexample:
  "normalize_job_template
     [(PStr ''name'', PStr ''t''),
      (PStr ''credentials'', PList [PDict [(PStr ''name'', PStr '''')], PStr '' a ''])]
   = Inr [(PStr ''name'', PStr ''t''), (PStr ''description'', PStr ''''),
      (PStr ''job_type'', PStr ''run''),
      (PStr ''credentials'', PList [PStr ''a'']),
      (PStr ''survey_enabled'', PBool False), (PStr ''limit'', PStr ''''),
      (PStr ''verbosity'', PInt 0), (PStr ''state'', PStr ''present'')]
   \<and> spec_credentials [PDict [(PStr ''name'', PStr '''')], PStr '' a '']
     = [PStr '''', PStr '' a '']
   \<and> PList [PStr ''a''] \<noteq>
       PList (spec_credentials [PDict [(PStr ''name'', PStr '''')], PStr '' a ''])"
  by (simp add: eval_defs spec_credentials_def)

section \<open>A second normalization\<close>

text \<open>
  A field read back from a pruned payload: the value the payload had, or \<^verbatim>\<open>None\<close>
  when pruning dropped it.
\<close>

lemma get_prune: "distinct (map fst p) \<Longrightarrow> get (prune p) k = sparse (get p k)"
  by (simp add: get_def map_of_prune sparse_def prunable_def split: option.splits)

lemma get_default_prune:
  "distinct (map fst p) \<Longrightarrow>
   get_default (prune p) k d =
     (case map_of p (PStr k) of None \<Rightarrow> d | Some v \<Rightarrow> if prunable v then d else v)"
  by (simp add: get_default_def map_of_prune split: option.splits)

lemma prune_Cons_cong:
  "sparse a = sparse b \<Longrightarrow> prune p = prune q \<Longrightarrow> prune ((k, a) # p) = prune ((k, b) # q)"
  by (auto simp: prune_def sparse_def prunable_def split: if_splits)

lemma sparse_sparse: "sparse (sparse x) = sparse x"
  by (simp add: sparse_def prunable_def)

lemma name_again: "sparse (priv_stripped (sparse (priv_stripped x))) = sparse (priv_stripped x)"
  by (cases x) (simp_all add: sparse_def prunable_def strip_idem)

lemma or_again: "sparse (py_or (sparse (py_or x d)) d) = sparse (py_or x d)"
  by (cases "truthy x"; cases "prunable d") (auto simp: py_or_def sparse_def prunable_def)

lemma bool_again: "py_bool (py_bool x) = py_bool x"
  by (simp add: py_bool_def)

lemma stripped_if_or_None: "stripped_if (py_or x PNone) = stripped_if x"
  by (simp add: stripped_if_def py_or_def)

lemma ref_again:
  assumes "prunable (stripped_if x) \<or> nonempty_str (stripped_if x)"
  shows "sparse (stripped_if (priv_name (sparse (stripped_if x)))) = sparse (stripped_if x)"
proof (cases "prunable (stripped_if x)")
  case True
  then show ?thesis by (simp add: sparse_def stripped_if_def prunable_def)
next
  case False
  with assms obtain s where s: "stripped_if x = PStr s" "s \<noteq> []"
    by (cases "stripped_if x") simp_all
  then have "truthy x" and "priv_stripped x = PStr s"
    by (simp_all add: stripped_if_def split: if_splits)
  then obtain s0 where "x = PStr s0" "s = strip s0" by (cases x) auto
  then have "strip s = s" by (simp add: strip_idem)
  with s show ?thesis by (simp add: sparse_def prunable_def stripped_if_def)
qed
lemma get_Cons: "get ((PStr k', v) # p) k = (if k' = k then v else get p k)"
  by (simp add: get_def)

lemma get_Nil: "get [] k = PNone"
  by (simp add: get_def)

lemma absent_or_name_prune:
  "distinct (map fst p) \<Longrightarrow> map_of p (PStr f) = Some v \<Longrightarrow>
   absent_or_name (prune p) f \<longleftrightarrow> prunable v \<or> nonempty_str v"
  by (simp add: absent_or_name_def map_of_prune)

lemma workflow_again:
  assumes "settled WorkflowTemplate (normalize_workflow_template w)"
  shows "normalize_workflow_template (normalize_workflow_template w) = normalize_workflow_template w"
proof -
  have org: "prunable (stripped_if (priv_name (get w ''organization''))) \<or>
             nonempty_str (stripped_if (priv_name (get w ''organization'')))"
    using assms
    by (simp add: settled_def normalize_workflow_template_def absent_or_name_prune)
  show ?thesis
    unfolding normalize_workflow_template_def Let_def
    by (intro prune_Cons_cong refl)
       (simp_all add: get_prune get_Cons get_Nil name_again or_again ref_again [OF org])
qed

lemma org_again: "normalize_org (normalize_org o') = normalize_org o'"
  by (cases "get o' ''name''") (simp_all add: normalize_org_def get_def strip_idem)

lemma inventory_again:
  assumes "settled Inventory (normalize_inventory i)"
  shows "normalize_inventory (normalize_inventory i) = normalize_inventory i"
proof -
  have org: "prunable (stripped_if (priv_name (get i ''organization''))) \<or>
             nonempty_str (stripped_if (priv_name (get i ''organization'')))"
    using assms
    by (simp add: settled_def normalize_inventory_def absent_or_name_prune)
  show ?thesis
    unfolding normalize_inventory_def Let_def
    by (intro prune_Cons_cong refl)
       (simp_all add: get_prune get_Cons get_Nil name_again or_again ref_again [OF org])
qed

lemma truthy_again: "truthy t \<Longrightarrow> sparse (py_or (sparse t) d) = sparse t"
  by (cases t) (simp_all add: sparse_def prunable_def py_or_def)

lemma project_again:
  assumes "settled Project (normalize_project p)"
  shows "normalize_project (normalize_project p) = normalize_project p"
proof -
  have org: "prunable (stripped_if (priv_name (get p ''organization''))) \<or>
             nonempty_str (stripped_if (priv_name (get p ''organization'')))"
    using assms
    by (simp add: settled_def normalize_project_def absent_or_name_prune)
  have "truthy (py_or (get p ''scm_type'')
              (if truthy (get p ''scm_url'') then PStr ''git'' else PStr ''manual''))"
    by (simp add: py_or_def)
  note ty = truthy_again [OF this]
  have flag: "py_bool (if prunable (py_bool x) then PBool True else py_bool x) = py_bool x" for x
    by (simp add: py_bool_def prunable_def)
  show ?thesis
    unfolding normalize_project_def Let_def
    by (intro prune_Cons_cong refl)
       (simp_all add: get_prune get_default_prune get_Cons get_Nil name_again or_again
          ref_again [OF org] sparse_sparse ty flag split del: if_split)
qed

lemma execution_environment_again:
  assumes "settled ExecutionEnvironment (normalize_execution_environment e)"
  shows "normalize_execution_environment (normalize_execution_environment e) =
         normalize_execution_environment e"
proof -
  have org: "prunable (stripped_if (priv_name (get e ''organization''))) \<or>
             nonempty_str (stripped_if (priv_name (get e ''organization'')))"
    using assms
    by (simp add: settled_def normalize_execution_environment_def absent_or_name_prune)
  have pull: "\<not> prunable (get_default e ''pull'' (PStr ''missing''))"
    using assms
    by (simp add: settled_def normalize_execution_environment_def map_of_prune split: if_splits)
  show ?thesis
    unfolding normalize_execution_environment_def Let_def
    by (intro prune_Cons_cong refl)
       (simp_all add: get_prune get_Cons get_Nil get_default_prune name_again ref_again [OF org] pull)
qed
lemma fold_pop_filter: "fold pop ks d = filter (\<lambda>kv. fst kv \<notin> PStr ` set ks) d"
  by (induction ks arbitrary: d) (auto simp: pop_def intro: filter_cong)

lemma fold_pop_again: "fold pop ks (fold pop ks d) = fold pop ks d"
  by (simp add: fold_pop_filter)

lemma resolve_fixed:
  assumes "\<forall>y \<in> set ys. \<exists>s. y = PStr s \<and> s \<noteq> [] \<and> strip s = s"
  shows "resolve_credentials ys = ys"
proof -
  have "truthy (priv_name y) \<and> priv_stripped (priv_name y) = y" if "y \<in> set ys" for y
    using assms that by auto
  then show ?thesis
    by (simp add: resolve_credentials_def map_idI)
qed

lemma resolve_again:
  assumes "list_all nonempty_str (resolve_credentials cs)"
  shows "resolve_credentials (resolve_credentials cs) = resolve_credentials cs"
proof (rule resolve_fixed, rule ballI)
  fix y
  assume y: "y \<in> set (resolve_credentials cs)"
  then obtain c where c: "y = priv_stripped (priv_name c)"
    by (auto simp: resolve_credentials_def)
  from y assms have "nonempty_str y" by (simp add: list_all_iff)
  then obtain s where s: "y = PStr s" "s \<noteq> []" by (cases y) simp_all
  with c obtain s0 where "priv_name c = PStr s0" "s = strip s0"
    by (cases "priv_name c") simp_all
  then have "strip s = s" by (simp add: strip_idem)
  with s show "\<exists>s. y = PStr s \<and> s \<noteq> [] \<and> strip s = s" by simp
qed

lemma job_template_again:
  assumes "normalize_job_template t = Inr r" and "settled JobTemplate r"
  shows "normalize_job_template r = Inr r"
proof -
  from assms(1) obtain cs where
    cs: "py_iter (py_or (get t ''credentials'') (PList [])) = Inr cs" and
    r: "r = prune
        [(PStr ''name'', priv_stripped (get t ''name'')),
         (PStr ''description'', py_or (get t ''description'') (PStr '''')),
         (PStr ''organization'', stripped_if (priv_name (get t ''organization''))),
         (PStr ''project'', stripped_if (priv_name (get t ''project''))),
         (PStr ''inventory'', stripped_if (priv_name (get t ''inventory''))),
         (PStr ''execution_environment'', stripped_if (priv_name (get t ''execution_environment''))),
         (PStr ''job_type'', py_or (get t ''job_type'') (PStr ''run'')),
         (PStr ''playbook'', get t ''playbook''),
         (PStr ''credentials'', PList (resolve_credentials cs)),
         (PStr ''survey_enabled'', py_bool (get t ''survey_enabled'')),
         (PStr ''limit'', py_or (get t ''limit'') (PStr '''')),
         (PStr ''verbosity'', py_or (get t ''verbosity'') (PInt 0)),
         (PStr ''state'', PStr ''present'')]"
    by (auto simp: normalize_job_template_def Let_def split: sum.splits)
  have org: "prunable (stripped_if (priv_name (get t ''organization''))) \<or>
             nonempty_str (stripped_if (priv_name (get t ''organization'')))"
    and proj: "prunable (stripped_if (priv_name (get t ''project''))) \<or>
             nonempty_str (stripped_if (priv_name (get t ''project'')))"
    and inv: "prunable (stripped_if (priv_name (get t ''inventory''))) \<or>
             nonempty_str (stripped_if (priv_name (get t ''inventory'')))"
    and ee: "prunable (stripped_if (priv_name (get t ''execution_environment''))) \<or>
             nonempty_str (stripped_if (priv_name (get t ''execution_environment'')))"
    using assms(2) unfolding r
    by (simp_all add: settled_def absent_or_name_prune)
  have "list_all nonempty_str (resolve_credentials cs)"
    using assms(2) unfolding r
    by (cases "resolve_credentials cs = []")
       (simp_all add: settled_def map_of_prune prunable_def)
  then have creds: "resolve_credentials (resolve_credentials cs) = resolve_credentials cs"
    by (rule resolve_again)
  have it: "py_iter (py_or (get r ''credentials'') (PList [])) = Inr (resolve_credentials cs)"
    unfolding r
    by (simp add: get_prune get_Cons get_Nil sparse_def prunable_def py_or_def)
  have flag: "py_bool (sparse (py_bool x)) = py_bool x" for x
    by (simp add: py_bool_def sparse_def prunable_def)
  have "normalize_job_template r = Inr (prune
        [(PStr ''name'', priv_stripped (get r ''name'')),
         (PStr ''description'', py_or (get r ''description'') (PStr '''')),
         (PStr ''organization'', stripped_if (priv_name (get r ''organization''))),
         (PStr ''project'', stripped_if (priv_name (get r ''project''))),
         (PStr ''inventory'', stripped_if (priv_name (get r ''inventory''))),
         (PStr ''execution_environment'', stripped_if (priv_name (get r ''execution_environment''))),
         (PStr ''job_type'', py_or (get r ''job_type'') (PStr ''run'')),
         (PStr ''playbook'', get r ''playbook''),
         (PStr ''credentials'', PList (resolve_credentials cs)),
         (PStr ''survey_enabled'', py_bool (get r ''survey_enabled'')),
         (PStr ''limit'', py_or (get r ''limit'') (PStr '''')),
         (PStr ''verbosity'', py_or (get r ''verbosity'') (PInt 0)),
         (PStr ''state'', PStr ''present'')])"
    by (simp add: normalize_job_template_def Let_def it creds)
  also have "\<dots> = Inr r"
    unfolding r sum.inject
    by (intro prune_Cons_cong refl)
       (simp_all add: get_prune get_Cons get_Nil name_again or_again sparse_sparse flag
          ref_again [OF org] ref_again [OF proj] ref_again [OF inv] ref_again [OF ee]
          split del: if_split)
  finally show ?thesis .
qed

lemma or_empty_dict: "py_or (PDict d) (PDict []) = PDict d"
  by (simp add: py_or_def)

lemma sparse_None: "sparse PNone = PNone"
  by (simp add: sparse_def)

lemma credential_again:
  assumes "normalize_credential c = Inr r" and "settled Credential r"
  shows "normalize_credential r = Inr r"
proof -
  from assms(1) obtain l inputs0 where
    same: "CREDTYPE_MAP_get l l = Inr l" and
    r: "r = prune
        [(PStr ''name'', priv_stripped (get c ''name'')),
         (PStr ''description'', py_or (get c ''description'') (PStr '''')),
         (PStr ''organization'',
            stripped_if (py_or (priv_name (get c ''organization''))
                               (priv_name (get c ''organization_id'')))),
         (PStr ''credential_type'', l),
         (PStr ''inputs'', PDict (fold pop sensitive_keys inputs0)),
         (PStr ''state'', PStr ''present'')]"
    by (rule normalize_credential_Inr)
  define org where "org = py_or (priv_name (get c ''organization'')) (priv_name (get c ''organization_id''))"
  have org: "prunable (stripped_if org) \<or> nonempty_str (stripped_if org)"
    using assms(2) unfolding r org_def
    by (simp add: settled_def absent_or_name_prune)
  have "hashable l"
    using same by (simp add: CREDTYPE_MAP_get_def split: if_splits)
  moreover have "prunable l"
    using assms(2) unfolding r by (simp add: settled_def map_of_prune split: if_splits)
  ultimately have l: "l = PNone"
    by (cases l) (simp_all add: prunable_def)
  have label: "credential_label r = Inr PNone"
    unfolding r l
    by (simp add: credential_label_def get_prune get_Cons get_Nil sparse_def prunable_def py_or_def)
  have lookup: "CREDTYPE_MAP_get PNone PNone = Inr PNone"
    by (simp add: CREDTYPE_MAP_get_def)
  have inputs: "py_dict (py_or (get r ''inputs'') (PDict [])) = Inr (fold pop sensitive_keys inputs0)"
    unfolding r
    by (simp add: get_prune get_Cons get_Nil sparse_def prunable_def py_or_def)
  have "normalize_credential r = Inr (prune
        [(PStr ''name'', priv_stripped (get r ''name'')),
         (PStr ''description'', py_or (get r ''description'') (PStr '''')),
         (PStr ''organization'',
            stripped_if (py_or (priv_name (get r ''organization''))
                               (priv_name (get r ''organization_id'')))),
         (PStr ''credential_type'', PNone),
         (PStr ''inputs'', PDict (fold pop sensitive_keys inputs0)),
         (PStr ''state'', PStr ''present'')])"
    by (simp add: normalize_credential_def Let_def label lookup inputs fold_pop_again
          or_empty_dict)
  also have "\<dots> = Inr r"
    unfolding r sum.inject l org_def [symmetric]
    by (intro prune_Cons_cong refl)
       (simp_all add: get_prune get_Cons get_Nil name_again or_again sparse_sparse
          sparse_None stripped_if_or_None ref_again [OF org] split del: if_split)
  finally show ?thesis .
qed


lemma settled_suffices:
  assumes "normalizer k raw = Inr r" and "settled k r"
  shows "normalizer k r = Inr r"
proof (cases k)
  case Organization
  with assms(1) show ?thesis by (auto simp: org_again)
next
  case Credential
  with assms show ?thesis by (simp add: credential_again)
next
  case Project
  with assms show ?thesis by (auto simp: project_again)
next
  case Inventory
  with assms show ?thesis by (auto simp: inventory_again)
next
  case JobTemplate
  with assms show ?thesis by (simp add: job_template_again)
next
  case WorkflowTemplate
  with assms show ?thesis by (auto simp: workflow_again)
next
  case ExecutionEnvironment
  with assms show ?thesis by (auto simp: execution_environment_again)
qed


text \<open>
  The converse: a record that a second run returns unchanged is settled. A reference
  that is kept but is no non-empty string is dropped or replaced by the second run (a
  mapping cannot hold itself under its \<^verbatim>\<open>name\<close> key), and so is such an entry of
  \<^verbatim>\<open>credentials\<close>.
\<close>

lemma sparse_eq_iff:
  "sparse a = sparse b \<longleftrightarrow> (prunable a \<and> prunable b) \<or> (\<not> prunable a \<and> a = b)"
  by (auto simp: sparse_def prunable_def)

lemma prune_eq_sparse:
  assumes "prune p = prune q" and "distinct (map fst p)" and "distinct (map fst q)"
    and "map_of p k = Some a" and "map_of q k = Some b"
  shows "sparse a = sparse b"
proof -
  have "map_of (prune p) k = map_of (prune q) k" using assms(1) by simp
  then show ?thesis
    using assms(2-) by (auto simp: map_of_prune sparse_eq_iff split: if_splits)
qed

lemma size_lookup: "map_of d k = Some y \<Longrightarrow> size y < size (PDict d)"
  by (induction d) (auto split: if_splits)

lemma name_not_itself: "get d ''name'' \<noteq> PDict d"
proof
  assume h: "get d ''name'' = PDict d"
  then have "map_of d (PStr ''name'') = Some (PDict d)"
    by (auto simp: get_def split: option.splits)
  then have "size (PDict d) < size (PDict d)" by (rule size_lookup)
  then show False by simp
qed

lemma stripped_name_fixed:
  assumes "truthy (priv_name v)" and "priv_stripped (priv_name v) = v"
  shows "nonempty_str v"
proof (cases v)
  case (PDict d)
  with assms(2) have "priv_stripped (get d ''name'') = PDict d" by simp
  then have "get d ''name'' = PDict d" by (cases "get d ''name''") simp_all
  then show ?thesis by (simp add: name_not_itself)
qed (use assms in simp_all)

lemma ref_needed:
  assumes "sparse (stripped_if (priv_name (sparse v))) = sparse v"
  shows "prunable v \<or> nonempty_str v"
proof (cases "prunable v")
  case False
  then have v: "sparse v = v" by (simp add: sparse_def)
  from assms have "sparse (stripped_if (priv_name v)) = sparse v" by (simp add: v)
  with False have e: "stripped_if (priv_name v) = v"
    by (auto simp: sparse_eq_iff)
  with False have "truthy (priv_name v)"
    by (auto simp: stripped_if_def prunable_def split: if_splits)
  with e show ?thesis
    by (simp add: stripped_if_def stripped_name_fixed)
qed simp

lemma map_filter_fixed:
  assumes "map f (filter P ys) = ys"
  shows "\<forall>y \<in> set ys. P y \<and> f y = y"
proof -
  have "length (filter P ys) = length ys"
    using assms by (metis length_map)
  then have all: "\<forall>y \<in> set ys. P y"
    using length_filter_less [of _ ys P] by fastforce
  then have "filter P ys = ys" by simp
  with assms have "map f ys = ys" by simp
  then have "\<forall>y \<in> set ys. f y = y" by (induction ys) auto
  with all show ?thesis by simp
qed

lemma ref_field_needed:
  assumes "prune q = prune p" and "distinct (map fst p)" and "distinct (map fst q)"
    and "map_of p (PStr f) = Some v"
    and "map_of q (PStr f) = Some (stripped_if (priv_name (get (prune p) f)))"
  shows "absent_or_name (prune p) f"
proof -
  have "get p f = v"
    using assms(4) by (simp add: get_def)
  then have "get (prune p) f = sparse v"
    using assms(2) by (simp add: get_prune)
  with assms have "sparse (stripped_if (priv_name (sparse v))) = sparse v"
    by (auto dest: prune_eq_sparse)
  then have "prunable v \<or> nonempty_str v" by (rule ref_needed)
  with assms(2,4) show ?thesis by (simp add: absent_or_name_prune)
qed

lemma workflow_needed:
  assumes "normalize_workflow_template (normalize_workflow_template w) = normalize_workflow_template w"
  shows "settled WorkflowTemplate (normalize_workflow_template w)"
proof -
  have "absent_or_name (normalize_workflow_template w) ''organization''"
    using assms unfolding normalize_workflow_template_def Let_def
    by (rule ref_field_needed) simp_all
  then show ?thesis
    by (simp add: settled_def normalize_workflow_template_def map_of_prune)
qed

lemma inventory_needed:
  assumes "normalize_inventory (normalize_inventory i) = normalize_inventory i"
  shows "settled Inventory (normalize_inventory i)"
proof -
  have "absent_or_name (normalize_inventory i) ''organization''"
    using assms unfolding normalize_inventory_def Let_def
    by (rule ref_field_needed) simp_all
  then show ?thesis
    by (simp add: settled_def normalize_inventory_def map_of_prune)
qed

lemma project_needed:
  assumes "normalize_project (normalize_project p) = normalize_project p"
  shows "settled Project (normalize_project p)"
proof -
  have "absent_or_name (normalize_project p) ''organization''"
    using assms unfolding normalize_project_def Let_def
    by (rule ref_field_needed) simp_all
  then show ?thesis
    by (simp add: settled_def normalize_project_def map_of_prune)
qed

lemma execution_environment_needed:
  assumes "normalize_execution_environment (normalize_execution_environment e) =
           normalize_execution_environment e"
  shows "settled ExecutionEnvironment (normalize_execution_environment e)"
proof -
  have org: "absent_or_name (normalize_execution_environment e) ''organization''"
    using assms unfolding normalize_execution_environment_def Let_def
    by (rule ref_field_needed) simp_all
  define x where "x = get_default e ''pull'' (PStr ''missing'')"
  have "sparse (if prunable x then PStr ''missing'' else x) = sparse x"
    using assms unfolding normalize_execution_environment_def Let_def x_def
    by (rule prune_eq_sparse [where k = "PStr ''pull''"]) (simp_all add: get_default_prune)
  then have "\<not> prunable x"
    by (auto simp: sparse_def prunable_def split: if_splits)
  then have "map_of (normalize_execution_environment e) (PStr ''pull'') \<noteq> None"
    by (simp add: normalize_execution_environment_def map_of_prune x_def)
  with org show ?thesis
    by (simp add: settled_def normalize_execution_environment_def map_of_prune)
qed

lemma job_template_needed:
  assumes "normalize_job_template t = Inr r" and "normalize_job_template r = Inr r"
  shows "settled JobTemplate r"
proof -
  from assms(1) obtain cs where
    r: "r = prune
        [(PStr ''name'', priv_stripped (get t ''name'')),
         (PStr ''description'', py_or (get t ''description'') (PStr '''')),
         (PStr ''organization'', stripped_if (priv_name (get t ''organization''))),
         (PStr ''project'', stripped_if (priv_name (get t ''project''))),
         (PStr ''inventory'', stripped_if (priv_name (get t ''inventory''))),
         (PStr ''execution_environment'', stripped_if (priv_name (get t ''execution_environment''))),
         (PStr ''job_type'', py_or (get t ''job_type'') (PStr ''run'')),
         (PStr ''playbook'', get t ''playbook''),
         (PStr ''credentials'', PList (resolve_credentials cs)),
         (PStr ''survey_enabled'', py_bool (get t ''survey_enabled'')),
         (PStr ''limit'', py_or (get t ''limit'') (PStr '''')),
         (PStr ''verbosity'', py_or (get t ''verbosity'') (PInt 0)),
         (PStr ''state'', PStr ''present'')]"
    by (auto simp: normalize_job_template_def Let_def split: sum.splits)
  have it: "py_iter (py_or (get r ''credentials'') (PList [])) = Inr (resolve_credentials cs)"
    unfolding r
    by (simp add: get_prune get_Cons get_Nil sparse_def prunable_def py_or_def)
  have again: "prune
        [(PStr ''name'', priv_stripped (get r ''name'')),
         (PStr ''description'', py_or (get r ''description'') (PStr '''')),
         (PStr ''organization'', stripped_if (priv_name (get r ''organization''))),
         (PStr ''project'', stripped_if (priv_name (get r ''project''))),
         (PStr ''inventory'', stripped_if (priv_name (get r ''inventory''))),
         (PStr ''execution_environment'', stripped_if (priv_name (get r ''execution_environment''))),
         (PStr ''job_type'', py_or (get r ''job_type'') (PStr ''run'')),
         (PStr ''playbook'', get r ''playbook''),
         (PStr ''credentials'', PList (resolve_credentials (resolve_credentials cs))),
         (PStr ''survey_enabled'', py_bool (get r ''survey_enabled'')),
         (PStr ''limit'', py_or (get r ''limit'') (PStr '''')),
         (PStr ''verbosity'', py_or (get r ''verbosity'') (PInt 0)),
         (PStr ''state'', PStr ''present'')] = r"
    using assms(2) by (simp add: normalize_job_template_def Let_def it)
  have org: "absent_or_name r ''organization''"
    using again unfolding r by (rule ref_field_needed) simp_all
  have proj: "absent_or_name r ''project''"
    using again unfolding r by (rule ref_field_needed) simp_all
  have inv: "absent_or_name r ''inventory''"
    using again unfolding r by (rule ref_field_needed) simp_all
  have ee: "absent_or_name r ''execution_environment''"
    using again unfolding r by (rule ref_field_needed) simp_all
  have "sparse (PList (resolve_credentials (resolve_credentials cs))) =
        sparse (PList (resolve_credentials cs))"
    using again unfolding r
    by (rule prune_eq_sparse [where k = "PStr ''credentials''"]) simp_all
  then have "resolve_credentials (resolve_credentials cs) = resolve_credentials cs"
    by (auto simp: sparse_eq_iff prunable_def resolve_credentials_def)
  then have "\<forall>y \<in> set (resolve_credentials cs).
      truthy (priv_name y) \<and> priv_stripped (priv_name y) = y"
    unfolding resolve_credentials_def [of "resolve_credentials cs"]
    by (rule map_filter_fixed)
  then have "list_all nonempty_str (resolve_credentials cs)"
    by (auto simp: list_all_iff intro: stripped_name_fixed)
  then have creds: "case map_of r (PStr ''credentials'') of
      Some (PList cs) \<Rightarrow> list_all nonempty_str cs | _ \<Rightarrow> True"
    unfolding r by (simp add: map_of_prune)
  from org proj inv ee creds show ?thesis
    by (simp add: settled_def)
qed

lemma credential_needed:
  assumes "normalize_credential c = Inr r" and "normalize_credential r = Inr r"
  shows "settled Credential r"
proof -
  from assms(1) obtain l inputs0 where
    same: "CREDTYPE_MAP_get l l = Inr l" and
    r: "r = prune
        [(PStr ''name'', priv_stripped (get c ''name'')),
         (PStr ''description'', py_or (get c ''description'') (PStr '''')),
         (PStr ''organization'',
            stripped_if (py_or (priv_name (get c ''organization''))
                               (priv_name (get c ''organization_id'')))),
         (PStr ''credential_type'', l),
         (PStr ''inputs'', PDict (fold pop sensitive_keys inputs0)),
         (PStr ''state'', PStr ''present'')]"
    by (rule normalize_credential_Inr)
  have hl: "hashable l"
    using same by (simp add: CREDTYPE_MAP_get_def split: if_splits)
  have ct: "get r ''credential_type'' = sparse l"
    unfolding r by (simp add: get_prune get_Cons)
  have kind: "get r ''kind'' = PNone" and oid: "get r ''organization_id'' = PNone"
    unfolding r by (simp_all add: get_prune get_Cons get_Nil sparse_None)
  from assms(2) obtain l2 inputs2 where
    l2: "credential_label r = Inr l2" and
    again: "r = prune
        [(PStr ''name'', priv_stripped (get r ''name'')),
         (PStr ''description'', py_or (get r ''description'') (PStr '''')),
         (PStr ''organization'',
            stripped_if (py_or (priv_name (get r ''organization''))
                               (priv_name (get r ''organization_id'')))),
         (PStr ''credential_type'', l2),
         (PStr ''inputs'', PDict (fold pop sensitive_keys inputs2)),
         (PStr ''state'', PStr ''present'')]"
    by (rule normalize_credential_Inr)
  have "\<not> truthy (sparse l)"
  proof
    assume "truthy (sparse l)"
    then have "attr_get (py_or (get r ''credential_type'') (PDict [])) ''name'' = Inl AttributeError"
      using hl by (cases l) (simp_all add: ct py_or_def sparse_def prunable_def)
    with l2 show False by (simp add: credential_label_def)
  qed
  then have "l2 = PNone"
    using l2 by (simp add: credential_label_def ct kind py_or_def get_Nil)
  with again have again': "prune
        [(PStr ''name'', priv_stripped (get r ''name'')),
         (PStr ''description'', py_or (get r ''description'') (PStr '''')),
         (PStr ''organization'', stripped_if (priv_name (get r ''organization''))),
         (PStr ''credential_type'', PNone),
         (PStr ''inputs'', PDict (fold pop sensitive_keys inputs2)),
         (PStr ''state'', PStr ''present'')] = r"
    by (simp add: oid stripped_if_or_None)
  have org: "absent_or_name r ''organization''"
    using again' unfolding r by (rule ref_field_needed) simp_all
  have "sparse PNone = sparse l"
    using again' unfolding r
    by (rule prune_eq_sparse [where k = "PStr ''credential_type''"]) simp_all
  then have "prunable l" by (auto simp: sparse_def prunable_def split: if_splits)
  then have "map_of r (PStr ''credential_type'') = None"
    unfolding r by (simp add: map_of_prune)
  with org show ?thesis
    unfolding r by (simp add: settled_def map_of_prune)
qed

lemma settled_needed:
  assumes "normalizer k raw = Inr r" and "normalizer k r = Inr r"
  shows "settled k r"
proof (cases k)
  case Organization
  with assms(1) show ?thesis by (auto simp: settled_def normalize_org_def)
next
  case Credential
  with assms show ?thesis by (simp add: credential_needed)
next
  case Project
  with assms show ?thesis by (auto simp: project_needed)
next
  case Inventory
  with assms show ?thesis by (auto simp: inventory_needed)
next
  case JobTemplate
  with assms show ?thesis by (simp add: job_template_needed)
next
  case WorkflowTemplate
  with assms show ?thesis by (auto simp: workflow_needed)
next
  case ExecutionEnvironment
  with assms show ?thesis by (auto simp: execution_environment_needed)
qed

text \<open>
  Claim C4, as amended. A record returned by one of the seven normalizers is returned
  unchanged by a second run of the same normalizer if and only if the record is
  settled: every reference field it has (\<^verbatim>\<open>organization\<close>; for a job template also
  \<^verbatim>\<open>project\<close>, \<^verbatim>\<open>inventory\<close>, \<^verbatim>\<open>execution_environment\<close>) holds a non-empty
  string, every entry of \<^verbatim>\<open>credentials\<close> is a non-empty string, a credential has no
  \<^verbatim>\<open>credential_type\<close> field, and an execution environment has a \<^verbatim>\<open>pull\<close> field.
  An organization record is always settled.
\<close>

theorem renormalizing_a_settled_record:
  assumes "normalizer k raw = Inr r"
  shows "normalizer k r = Inr r \<longleftrightarrow> settled k r"
proof
  assume "normalizer k r = Inr r"
  with assms show "settled k r" by (rule settled_needed)
next
  assume "settled k r"
  with assms show "normalizer k r = Inr r" by (rule settled_suffices)
qed

theorem renormalizing_a_settled_record_witness:
  "normalizer JobTemplate
     [(PStr ''id'', PInt 12),
      (PStr ''name'', PStr '' Deploy ''),
      (PStr ''organization'', PDict [(PStr ''id'', PInt 1), (PStr ''name'', PStr ''Default'')]),
      (PStr ''project'', PStr ''Web''),
      (PStr ''inventory'', PDict [(PStr ''name'', PStr '' Prod '')]),
      (PStr ''playbook'', PStr ''site.yml''),
      (PStr ''credentials'',
         PList [PDict [(PStr ''name'', PStr ''Vault Cred'')], PDict [(PStr ''id'', PInt 7)]]),
      (PStr ''verbosity'', PInt 2)]
   = Inr [(PStr ''name'', PStr ''Deploy''), (PStr ''description'', PStr ''''),
      (PStr ''organization'', PStr ''Default''),
      (PStr ''project'', PStr ''Web''), (PStr ''inventory'', PStr ''Prod''),
      (PStr ''job_type'', PStr ''run''),
      (PStr ''playbook'', PStr ''site.yml''),
      (PStr ''credentials'', PList [PStr ''Vault Cred'']),
      (PStr ''survey_enabled'', PBool False), (PStr ''limit'', PStr ''''),
      (PStr ''verbosity'', PInt 2), (PStr ''state'', PStr ''present'')]
   \<and> settled JobTemplate
     [(PStr ''name'', PStr ''Deploy''), (PStr ''description'', PStr ''''),
      (PStr ''organization'', PStr ''Default''),
      (PStr ''project'', PStr ''Web''), (PStr ''inventory'', PStr ''Prod''),
      (PStr ''job_type'', PStr ''run''),
      (PStr ''playbook'', PStr ''site.yml''),
      (PStr ''credentials'', PList [PStr ''Vault Cred'']),
      (PStr ''survey_enabled'', PBool False), (PStr ''limit'', PStr ''''),
      (PStr ''verbosity'', PInt 2), (PStr ''state'', PStr ''present'')]
   \<and> normalizer JobTemplate
     [(PStr ''name'', PStr ''Deploy''), (PStr ''description'', PStr ''''),
      (PStr ''organization'', PStr ''Default''),
      (PStr ''project'', PStr ''Web''), (PStr ''inventory'', PStr ''Prod''),
      (PStr ''job_type'', PStr ''run''),
      (PStr ''playbook'', PStr ''site.yml''),
      (PStr ''credentials'', PList [PStr ''Vault Cred'']),
      (PStr ''survey_enabled'', PBool False), (PStr ''limit'', PStr ''''),
      (PStr ''verbosity'', PInt 2), (PStr ''state'', PStr ''present'')]
   = Inr [(PStr ''name'', PStr ''Deploy''), (PStr ''description'', PStr ''''),
      (PStr ''organization'', PStr ''Default''),
      (PStr ''project'', PStr ''Web''), (PStr ''inventory'', PStr ''Prod''),
      (PStr ''job_type'', PStr ''run''),
      (PStr ''playbook'', PStr ''site.yml''),
      (PStr ''credentials'', PList [PStr ''Vault Cred'']),
      (PStr ''survey_enabled'', PBool False), (PStr ''limit'', PStr ''''),
      (PStr ''verbosity'', PInt 2), (PStr ''state'', PStr ''present'')]"
proof -
  have h: "normalizer JobTemplate
     [(PStr ''id'', PInt 12),
      (PStr ''name'', PStr '' Deploy ''),
      (PStr ''organization'', PDict [(PStr ''id'', PInt 1), (PStr ''name'', PStr ''Default'')]),
      (PStr ''project'', PStr ''Web''),
      (PStr ''inventory'', PDict [(PStr ''name'', PStr '' Prod '')]),
      (PStr ''playbook'', PStr ''site.yml''),
      (PStr ''credentials'',
         PList [PDict [(PStr ''name'', PStr ''Vault Cred'')], PDict [(PStr ''id'', PInt 7)]]),
      (PStr ''verbosity'', PInt 2)]
   = Inr [(PStr ''name'', PStr ''Deploy''), (PStr ''description'', PStr ''''),
      (PStr ''organization'', PStr ''Default''),
      (PStr ''project'', PStr ''Web''), (PStr ''inventory'', PStr ''Prod''),
      (PStr ''job_type'', PStr ''run''),
      (PStr ''playbook'', PStr ''site.yml''),
      (PStr ''credentials'', PList [PStr ''Vault Cred'']),
      (PStr ''survey_enabled'', PBool False), (PStr ''limit'', PStr ''''),
      (PStr ''verbosity'', PInt 2), (PStr ''state'', PStr ''present'')]"
    by (simp add: eval_defs)
  have s: "settled JobTemplate
     [(PStr ''name'', PStr ''Deploy''), (PStr ''description'', PStr ''''),
      (PStr ''organization'', PStr ''Default''),
      (PStr ''project'', PStr ''Web''), (PStr ''inventory'', PStr ''Prod''),
      (PStr ''job_type'', PStr ''run''),
      (PStr ''playbook'', PStr ''site.yml''),
      (PStr ''credentials'', PList [PStr ''Vault Cred'']),
      (PStr ''survey_enabled'', PBool False), (PStr ''limit'', PStr ''''),
      (PStr ''verbosity'', PInt 2), (PStr ''state'', PStr ''present'')]"
    by (simp add: settled_def absent_or_name_def)
  from renormalizing_a_settled_record [OF h] s have "normalizer JobTemplate
     [(PStr ''name'', PStr ''Deploy''), (PStr ''description'', PStr ''''),
      (PStr ''organization'', PStr ''Default''),
      (PStr ''project'', PStr ''Web''), (PStr ''inventory'', PStr ''Prod''),
      (PStr ''job_type'', PStr ''run''),
      (PStr ''playbook'', PStr ''site.yml''),
      (PStr ''credentials'', PList [PStr ''Vault Cred'']),
      (PStr ''survey_enabled'', PBool False), (PStr ''limit'', PStr ''''),
      (PStr ''verbosity'', PInt 2), (PStr ''state'', PStr ''present'')]
   = Inr [(PStr ''name'', PStr ''Deploy''), (PStr ''description'', PStr ''''),
      (PStr ''organization'', PStr ''Default''),
      (PStr ''project'', PStr ''Web''), (PStr ''inventory'', PStr ''Prod''),
      (PStr ''job_type'', PStr ''run''),
      (PStr ''playbook'', PStr ''site.yml''),
      (PStr ''credentials'', PList [PStr ''Vault Cred'']),
      (PStr ''survey_enabled'', PBool False), (PStr ''limit'', PStr ''''),
      (PStr ''verbosity'', PInt 2), (PStr ''state'', PStr ''present'')]"
    by (rule iffD2)
  with h s show ?thesis
    by (intro conjI)
qed

text \<open>
  Claim C4 as stated fails. A canonical credential carries its type as a string, and
  the normalizer calls \<^verbatim>\<open>.get("name")\<close> on it: the second normalization raises
  \<^verbatim>\<open>AttributeError\<close>. An execution environment whose \<^verbatim>\<open>pull\<close> was null loses the
  field and gets \<^verbatim>\<open>"missing"\<close> the second time. A workflow whose organization name is
  blank keeps \<^verbatim>\<open>""\<close> the first time and loses the field the second time.
\<close>

theorem renormalizing_counterexample:
  "normalizer Credential
     [(PStr ''name'', PStr ''c''),
      (PStr ''credential_type'', PDict [(PStr ''name'', PStr ''Machine'')])]
   = Inr [(PStr ''name'', PStr ''c''), (PStr ''description'', PStr ''''),
      (PStr ''credential_type'', PStr ''Machine''), (PStr ''state'', PStr ''present'')]
   \<and> normalizer Credential
     [(PStr ''name'', PStr ''c''), (PStr ''description'', PStr ''''),
      (PStr ''credential_type'', PStr ''Machine''), (PStr ''state'', PStr ''present'')]
   = Inl AttributeError
   \<and> normalizer ExecutionEnvironment
     [(PStr ''name'', PStr ''e''), (PStr ''image'', PStr ''i''), (PStr ''pull'', PNone)]
   = Inr [(PStr ''name'', PStr ''e''), (PStr ''image'', PStr ''i''),
      (PStr ''state'', PStr ''present'')]
   \<and> normalizer ExecutionEnvironment
     [(PStr ''name'', PStr ''e''), (PStr ''image'', PStr ''i''),
      (PStr ''state'', PStr ''present'')]
   = Inr [(PStr ''name'', PStr ''e''), (PStr ''image'', PStr ''i''),
      (PStr ''pull'', PStr ''missing''), (PStr ''state'', PStr ''present'')]
   \<and> normalizer WorkflowTemplate
     [(PStr ''name'', PStr ''w''), (PStr ''organization'', PStr ''  '')]
   = Inr [(PStr ''name'', PStr ''w''), (PStr ''description'', PStr ''''),
      (PStr ''organization'', PStr ''''), (PStr ''state'', PStr ''present'')]
   \<and> normalizer WorkflowTemplate
     [(PStr ''name'', PStr ''w''), (PStr ''description'', PStr ''''),
      (PStr ''organization'', PStr ''''), (PStr ''state'', PStr ''present'')]
   = Inr [(PStr ''name'', PStr ''w''), (PStr ''description'', PStr ''''),
      (PStr ''state'', PStr ''present'')]"
  by (simp add: eval_defs)

end
